theory Spec2Isabelle
  imports Complex_Main
begin

section \<open>The SillyTavern extension (packages/kaomoji-replacer-sillytavern/index.js)\<close>

text \<open>
  The extension is the host glue around the kaomoji replacement library. Its module state
  (\<^verbatim>\<open>replacer\<close>), the host's chat array, the extension settings and the calls it makes
  into the host are gathered in one state record that every function takes and returns.
  \<^verbatim>\<open>async\<close> functions are run to completion one after the other; \<^verbatim>\<open>console\<close>
  output is left out.
\<close>

subsection \<open>Settings and options\<close>

text \<open>
  \<^verbatim>\<open>keepOriginalOnNotFound\<close> and \<^verbatim>\<open>markNotFound\<close> occur both in the settings object and in
  the options object handed to \<^verbatim>\<open>replaceText\<close>; they are the common root of both records.
  \<^verbatim>\<open>modifyMode\<close> and the strategy stay strings, as in the source.
\<close>

record NotFoundOptions =
  keepOriginalOnNotFound :: bool
  markNotFound :: bool

record ReplaceOptions = NotFoundOptions +
  strategy :: string

record Settings = NotFoundOptions +
  enabled :: bool
  autoProcess :: bool
  modifyMode :: string
  processUserMessages :: bool
  processAIMessages :: bool
  replaceStrategy :: string

definition defaultSettings :: Settings where
  "defaultSettings =
     \<lparr> keepOriginalOnNotFound = True, markNotFound = False,
       enabled = True, autoProcess = True, modifyMode = ''display'',
       processUserMessages = False, processAIMessages = True,
       replaceStrategy = ''best'' \<rparr>"

subsection \<open>Messages\<close>

record MessageExtra =
  kaomoji_original :: "string option"
  display_text :: "string option"

record Message =
  is_user :: bool
  is_system :: bool
  mes :: string
  extra :: "MessageExtra option"

text \<open>JavaScript truthiness of a property holding a string or nothing: the empty string
  and \<^verbatim>\<open>undefined\<close> are both falsy.\<close>

fun truthy :: "string option \<Rightarrow> bool" where
  "truthy None = False"
| "truthy (Some s) = (s \<noteq> [])"

text \<open>\<^verbatim>\<open>message?.extra?.kaomoji_original\<close>\<close>

definition backup :: "Message \<Rightarrow> string option" where
  "backup message = (case extra message of None \<Rightarrow> None | Some e \<Rightarrow> kaomoji_original e)"

text \<open>\<^verbatim>\<open>message?.extra?.display_text\<close>\<close>

definition display :: "Message \<Rightarrow> string option" where
  "display message = (case extra message of None \<Rightarrow> None | Some e \<Rightarrow> display_text e)"

subsection \<open>The result of the library's replaceText\<close>

text \<open>
  The library itself is loaded at run time from a bundle that is not among the sources.
  The extension reads \<^verbatim>\<open>hasReplacements\<close>, \<^verbatim>\<open>successCount\<close> and \<^verbatim>\<open>text\<close> of the result
  of \<^verbatim>\<open>replaceText\<close>.
\<close>

text \<open>Modelled from the spec: the outcomes of the library's replacement records
  (section 3, ReplacementResult).\<close>

datatype Outcome = replaced | notFoundKept | notFoundMarked | notFoundRemoved

text \<open>Modelled from the spec: the field \<^verbatim>\<open>rawKeyword\<close> that the library's tokens and
  replacement records share (section 3).\<close>

record Keyworded =
  rawKeyword :: string

text \<open>Modelled from the spec: the library's replacement record (section 3).\<close>

record ReplacementRecord = Keyworded +
  outcome :: Outcome
  chosenKaomoji :: "string option"

text \<open>Modelled from the spec: the library's result type (section 3, ReplacementResult);
  \<open>result_text\<close> is its field \<^verbatim>\<open>text\<close>.\<close>

record ReplacementResult =
  result_text :: string
  hasReplacements :: bool
  successCount :: nat
  failureCount :: nat
  records :: "ReplacementRecord list"

subsection \<open>The library interface and the host\<close>

text \<open>
  \<^verbatim>\<open>window.KaomojiReplacer\<close>: the replacer object \<open>'r\<close> with \<^verbatim>\<open>replaceText\<close> and
  \<^verbatim>\<open>loadKaomojis\<close>, and the data manager \<open>'m\<close> with \<^verbatim>\<open>loadFromJSON\<close> (\<open>None\<close> when it
  throws) and \<^verbatim>\<open>getAllKaomojis\<close>. The extension's functions take the library as a
  parameter, so what is proved of them holds for every library.
\<close>

record ('r, 'm, 'd) KaomojiReplacerLib =
  lib_replaceText :: "'r \<Rightarrow> string \<Rightarrow> ReplaceOptions \<Rightarrow> ReplacementResult"
  lib_loadKaomojis :: "'d \<Rightarrow> 'r \<Rightarrow> 'r"
  lib_newManager :: 'm
  lib_loadFromJSON :: "string \<Rightarrow> 'm \<Rightarrow> 'm option"
  lib_getAllKaomojis :: "'m \<Rightarrow> 'd"

text \<open>Calls into the host, in the order they are made. The host's functions are taken
  to return normally.\<close>

datatype HostCall =
    Fetch string
  | UpdateMessageBlock nat Message
  | SaveChat
  | Emit_MESSAGE_EDITED nat

datatype FetchResult = NetworkError | Response bool nat string

datatype Thrown =
    Error_HTTP nat
  | Error_Template_not_found nat
  | Error_No_kaomoji_data_available
  | Error_from_library
  | TypeError
  | Error_from_fetch

record 'r Extension =
  chat :: "Message list"
  extension_settings :: Settings
  replacer :: "'r option"
  host_calls :: "HostCall list"

text \<open>\<^verbatim>\<open>context.chat[messageId]\<close>: \<^verbatim>\<open>undefined\<close> past the end of the array.\<close>

definition chat_at :: "'r Extension \<Rightarrow> nat \<Rightarrow> Message option" where
  "chat_at s messageId =
     (if messageId < length (chat s) then Some (chat s ! messageId) else None)"

definition EXT_FOLDER :: string where
  "EXT_FOLDER = ''scripts/extensions/third-party/kaomoji-replacer''"

definition userDataUrl :: string where
  "userDataUrl = ''/'' @ EXT_FOLDER @ ''/data/kaomojis.json''"

definition templateDataUrl :: string where
  "templateDataUrl = ''/'' @ EXT_FOLDER @ ''/data/kaomojis.template.json''"

subsection \<open>loadKaomojiData\<close>

text \<open>
  The body of each \<^verbatim>\<open>try\<close> block of \<^verbatim>\<open>loadKaomojiData\<close>: fetch, test \<^verbatim>\<open>response.ok\<close>,
  read the text, parse it with the manager, hand the manager's entries to the replacer.
  The two blocks differ in the address and in the error of a response that is not ok.
  A rejected fetch, a failing parse and a missing replacer all throw inside the block.
\<close>

definition fetchAndLoad ::
  "('r, 'm, 'd) KaomojiReplacerLib \<Rightarrow> (string \<Rightarrow> FetchResult) \<Rightarrow> string \<Rightarrow> (nat \<Rightarrow> Thrown) \<Rightarrow>
   'm \<Rightarrow> 'r Extension \<Rightarrow> (Thrown + unit) \<times> 'm \<times> 'r Extension" where
  "fetchAndLoad lib fetch url notOk manager s =
     (let s1 = s\<lparr>host_calls := host_calls s @ [Fetch url]\<rparr> in
      case fetch url of
        NetworkError \<Rightarrow> (Inl Error_from_fetch, manager, s1)
      | Response ok status jsonText \<Rightarrow>
          if \<not> ok then (Inl (notOk status), manager, s1)
          else (case lib_loadFromJSON lib jsonText manager of
                  None \<Rightarrow> (Inl Error_from_library, manager, s1)
                | Some manager' \<Rightarrow>
                    (case replacer s1 of
                       None \<Rightarrow> (Inl TypeError, manager', s1)
                     | Some r \<Rightarrow>
                         (Inr (), manager',
                          s1\<lparr>replacer :=
                               Some (lib_loadKaomojis lib (lib_getAllKaomojis lib manager') r)\<rparr>))))"

definition loadKaomojiData ::
  "('r, 'm, 'd) KaomojiReplacerLib \<Rightarrow> (string \<Rightarrow> FetchResult) \<Rightarrow> 'r Extension \<Rightarrow>
   (Thrown + unit) \<times> 'r Extension" where
  "loadKaomojiData lib fetch s =
     (case fetchAndLoad lib fetch userDataUrl Error_HTTP (lib_newManager lib) s of
        (Inr u, manager, s1) \<Rightarrow> (Inr (), s1)
      | (Inl error, manager, s1) \<Rightarrow>
          (case fetchAndLoad lib fetch templateDataUrl Error_Template_not_found manager s1 of
             (Inr u, manager', s2) \<Rightarrow> (Inr (), s2)
           | (Inl fallbackError, manager', s2) \<Rightarrow> (Inl Error_No_kaomoji_data_available, s2)))"

text \<open>
  When a \<^verbatim>\<open>try\<close> block of \<^verbatim>\<open>loadKaomojiData\<close> that is entered with the fresh manager
  throws although the replacer exists: the fetch is rejected, the response is not ok, or
  the manager cannot parse the text.
\<close>

definition attemptFails ::
  "('r, 'm, 'd) KaomojiReplacerLib \<Rightarrow> (string \<Rightarrow> FetchResult) \<Rightarrow> string \<Rightarrow> bool" where
  "attemptFails lib fetch url =
     (case fetch url of
        NetworkError \<Rightarrow> True
      | Response ok status jsonText \<Rightarrow>
          \<not> ok \<or> lib_loadFromJSON lib jsonText (lib_newManager lib) = None)"

subsection \<open>Modifying and restoring a message\<close>

definition modifyMessageDisplay ::
  "nat \<Rightarrow> string \<Rightarrow> string \<Rightarrow> 'r Extension \<Rightarrow> bool \<times> 'r Extension" where
  "modifyMessageDisplay messageId displayContent originalContent s =
     (case chat_at s messageId of
        None \<Rightarrow> (False, s)
      | Some message \<Rightarrow>
          (let e0 = (case extra message of
                       None \<Rightarrow> \<lparr>kaomoji_original = None, display_text = None\<rparr>
                     | Some e \<Rightarrow> e);
               e1 = (if \<not> truthy (kaomoji_original e0)
                     then e0\<lparr>kaomoji_original := Some originalContent\<rparr> else e0);
               e2 = e1\<lparr>display_text := Some displayContent\<rparr>;
               message' = message\<lparr>extra := Some e2\<rparr>
           in (True,
               s\<lparr>chat := (chat s)[messageId := message'],
                 host_calls := host_calls s @ [UpdateMessageBlock messageId message', SaveChat]\<rparr>)))"

definition modifyMessageContent ::
  "nat \<Rightarrow> string \<Rightarrow> string \<Rightarrow> 'r Extension \<Rightarrow> bool \<times> 'r Extension" where
  "modifyMessageContent messageId newContent originalContent s =
     (case chat_at s messageId of
        None \<Rightarrow> (False, s)
      | Some message \<Rightarrow>
          (let e0 = (case extra message of
                       None \<Rightarrow> \<lparr>kaomoji_original = None, display_text = None\<rparr>
                     | Some e \<Rightarrow> e);
               e1 = (if \<not> truthy (kaomoji_original e0)
                     then e0\<lparr>kaomoji_original := Some originalContent\<rparr> else e0);
               message' = message\<lparr>extra := Some e1, mes := newContent\<rparr>
           in (True,
               s\<lparr>chat := (chat s)[messageId := message'],
                 host_calls := host_calls s @
                   [UpdateMessageBlock messageId message', SaveChat,
                    Emit_MESSAGE_EDITED messageId]\<rparr>)))"

text \<open>The options object that \<^verbatim>\<open>processMessage\<close> builds from the settings.\<close>

definition replaceOptionsOf :: "Settings \<Rightarrow> ReplaceOptions" where
  "replaceOptionsOf settings =
     \<lparr> keepOriginalOnNotFound = keepOriginalOnNotFound settings,
       markNotFound = markNotFound settings,
       strategy = replaceStrategy settings \<rparr>"

text \<open>
  \<^verbatim>\<open>processMessage\<close>. With \<^verbatim>\<open>replacer\<close> still \<^verbatim>\<open>null\<close> the call of \<^verbatim>\<open>replaceText\<close>
  throws a TypeError, which the \<^verbatim>\<open>catch\<close> turns into \<^verbatim>\<open>false\<close>. The results of the two
  modify functions are ignored, as in the source.
\<close>

definition processMessage ::
  "('r, 'm, 'd) KaomojiReplacerLib \<Rightarrow> nat \<Rightarrow> 'r Extension \<Rightarrow> bool \<times> 'r Extension" where
  "processMessage lib messageId s =
     (case chat_at s messageId of
        None \<Rightarrow> (False, s)
      | Some message \<Rightarrow>
          if is_system message then (False, s)
          else if is_user message \<and> \<not> processUserMessages (extension_settings s) then (False, s)
          else if \<not> is_user message \<and> \<not> processAIMessages (extension_settings s) then (False, s)
          else
            (case replacer s of
               None \<Rightarrow> (False, s)
             | Some r \<Rightarrow>
                 (let originalText = mes message;
                      result = lib_replaceText lib r originalText
                                 (replaceOptionsOf (extension_settings s))
                  in if \<not> hasReplacements result \<or> successCount result = 0 then (False, s)
                     else if modifyMode (extension_settings s) = ''display''
                     then (True, snd (modifyMessageDisplay messageId (result_text result) originalText s))
                     else (True, snd (modifyMessageContent messageId (result_text result) originalText s)))))"

definition restoreMessage :: "nat \<Rightarrow> 'r Extension \<Rightarrow> bool \<times> 'r Extension" where
  "restoreMessage messageId s =
     (case chat_at s messageId of
        None \<Rightarrow> (False, s)
      | Some message \<Rightarrow>
          (case extra message of
             None \<Rightarrow> (False, s)
           | Some e \<Rightarrow>
               if \<not> truthy (kaomoji_original e) then (False, s)
               else
                 (let originalContent = the (kaomoji_original e);
                      message1 = (if modifyMode (extension_settings s) = ''display''
                                  then message\<lparr>extra := Some (e\<lparr>display_text := None\<rparr>)\<rparr>
                                  else message\<lparr>mes := originalContent\<rparr>);
                      message2 = message1\<lparr>extra :=
                                   Some ((the (extra message1))\<lparr>kaomoji_original := None\<rparr>)\<rparr>
                  in (True,
                      s\<lparr>chat := (chat s)[messageId := message2],
                        host_calls := host_calls s @
                          [UpdateMessageBlock messageId message2, SaveChat]\<rparr>))))"

text \<open>Any sequence of calls of the three functions that may write the backup.\<close>

datatype Call =
    ProcessMessage nat
  | ModifyMessageDisplay nat string string
  | ModifyMessageContent nat string string

fun call :: "('r, 'm, 'd) KaomojiReplacerLib \<Rightarrow> Call \<Rightarrow> 'r Extension \<Rightarrow> 'r Extension" where
  "call lib (ProcessMessage i) s = snd (processMessage lib i s)"
| "call lib (ModifyMessageDisplay i d orig) s = snd (modifyMessageDisplay i d orig s)"
| "call lib (ModifyMessageContent i n orig) s = snd (modifyMessageContent i n orig s)"

fun calls :: "('r, 'm, 'd) KaomojiReplacerLib \<Rightarrow> Call list \<Rightarrow> 'r Extension \<Rightarrow> 'r Extension" where
  "calls lib [] s = s"
| "calls lib (c # cs) s = calls lib cs (call lib c s)"

text \<open>
  The calls that the extension offers to the host as \<^verbatim>\<open>window.KaomojiReplacerExtension\<close>
  and makes from its event listeners: \<^verbatim>\<open>processMessage\<close> and \<^verbatim>\<open>restoreMessage\<close>
  (\<^verbatim>\<open>processAllMessages\<close> and \<^verbatim>\<open>restoreAllMessages\<close> are loops of these).
\<close>

datatype ApiCall =
    Api_processMessage nat
  | Api_restoreMessage nat

fun apiCall :: "('r, 'm, 'd) KaomojiReplacerLib \<Rightarrow> ApiCall \<Rightarrow> 'r Extension \<Rightarrow> 'r Extension" where
  "apiCall lib (Api_processMessage i) s = snd (processMessage lib i s)"
| "apiCall lib (Api_restoreMessage i) s = snd (restoreMessage i s)"

fun apiCalls ::
  "('r, 'm, 'd) KaomojiReplacerLib \<Rightarrow> ApiCall list \<Rightarrow> 'r Extension \<Rightarrow> 'r Extension" where
  "apiCalls lib [] s = s"
| "apiCalls lib (c # cs) s = apiCalls lib cs (apiCall lib c s)"

text \<open>No message of the chat carries a backup that is the empty string, the one value
  that is set and yet falsy.\<close>

definition noEmptyBackup :: "'r Extension \<Rightarrow> bool" where
  "noEmptyBackup s = (\<forall>m\<in>set (chat s). backup m \<noteq> Some [])"

text \<open>Modelled from the spec: what the extension relies on of the library's
  \<^verbatim>\<open>replaceText\<close>, which is not among the sources: on the empty text it reports no
  successful replacement (section 4.4, edge case of the empty input).\<close>

definition noSuccessOnEmptyText :: "('r, 'm, 'd) KaomojiReplacerLib \<Rightarrow> bool" where
  "noSuccessOnEmptyText lib =
     (\<forall>r opts. \<not> hasReplacements (lib_replaceText lib r [] opts) \<or>
                successCount (lib_replaceText lib r [] opts) = 0)"

section \<open>The replacement library, modelled from the specification\<close>

text \<open>
  The library bundle \<^verbatim>\<open>lib/kaomoji-replacer.umd.min.js\<close> with its classes
  \<^verbatim>\<open>SearchEngine\<close>, \<^verbatim>\<open>KaomojiReplacer\<close> and \<^verbatim>\<open>KaomojiDataManager\<close> is not among the
  sources. Everything in this section follows sections 3 and 4 of the specification.
\<close>

subsection \<open>Data model\<close>

text \<open>Modelled from the spec: the library's entry type (section 3, KaomojiEntry).\<close>

record KaomojiEntry =
  keyword :: string
  kaomoji :: string
  aliases :: "string list"
  tags :: "string list"

text \<open>Modelled from the spec: the library's match kinds and candidates (section 3,
  MatchCandidate). The reference to the entry is its position in the store together with
  the entry itself.\<close>

datatype MatchKind = Exact | Alias | Fuzzy

record MatchCandidate =
  entryIndex :: nat
  entry :: KaomojiEntry
  score :: real
  matchKind :: MatchKind

text \<open>Modelled from the spec: the library's token type (section 3, Token).\<close>

record Token = Keyworded +
  startOffset :: nat
  endOffset :: nat
  originalText :: string

text \<open>Modelled from the spec: the library's search engine. Section 4.2 leaves the
  normalisation of punctuation and the similarity measure to the implementer and makes the
  threshold configurable, so the three are the fields of the engine.\<close>

record SearchEngine =
  normalizeQuery :: "string \<Rightarrow> string"
  similarity :: "string \<Rightarrow> string \<Rightarrow> real"
  threshold :: real

subsection \<open>Dataset Store and Search Engine\<close>

text \<open>Modelled from the spec: the normalised keyword and aliases of an entry, the keys
  under which the library's derived index files it (section 3, Dataset Store).\<close>

definition keysOf :: "SearchEngine \<Rightarrow> KaomojiEntry \<Rightarrow> string list" where
  "keysOf eng e = map (normalizeQuery eng) (keyword e # aliases e)"

text \<open>Modelled from the spec: the library's \<^verbatim>\<open>lookupExact\<close> (section 4.1), as the
  position of the entry. The store is the ordered list of entries; of two entries with
  the same key the first is kept.\<close>

fun lookupFrom :: "SearchEngine \<Rightarrow> nat \<Rightarrow> KaomojiEntry list \<Rightarrow> string \<Rightarrow> nat option" where
  "lookupFrom eng i [] k = None"
| "lookupFrom eng i (e # es) k =
     (if k \<in> set (keysOf eng e) then Some i else lookupFrom eng (Suc i) es k)"

definition lookupExact :: "SearchEngine \<Rightarrow> KaomojiEntry list \<Rightarrow> string \<Rightarrow> nat option" where
  "lookupExact eng store k = lookupFrom eng 0 store (normalizeQuery eng k)"

text \<open>Modelled from the spec: the fuzzy score of an entry in the library's search, the
  maximum similarity of the query to the entry's keyword, aliases and tags
  (section 4.2, step 3).\<close>

definition fuzzyScore :: "SearchEngine \<Rightarrow> KaomojiEntry \<Rightarrow> string \<Rightarrow> real" where
  "fuzzyScore eng e q =
     fold max (map (\<lambda>k. similarity eng q (normalizeQuery eng k)) (aliases e @ tags e))
       (similarity eng q (normalizeQuery eng (keyword e)))"

text \<open>Modelled from the spec: the candidates of the library's search before sorting
  (section 4.2, steps 2 and 3), entry by entry in dataset order: the exact candidate with
  score 1 when the entry is the one the query's key resolves to, and the fuzzy candidate
  when the entry's fuzzy score exceeds the threshold.\<close>

fun candidatesFrom ::
  "SearchEngine \<Rightarrow> nat option \<Rightarrow> string \<Rightarrow> nat \<Rightarrow> KaomojiEntry list \<Rightarrow> MatchCandidate list" where
  "candidatesFrom eng hit q i [] = []"
| "candidatesFrom eng hit q i (e # es) =
     (if hit = Some i
      then [\<lparr>entryIndex = i, entry = e, score = 1, matchKind = Exact\<rparr>] else []) @
     (if threshold eng < fuzzyScore eng e q
      then [\<lparr>entryIndex = i, entry = e, score = fuzzyScore eng e q, matchKind = Fuzzy\<rparr>] else []) @
     candidatesFrom eng hit q (Suc i) es"

text \<open>Modelled from the spec: the order of the match kinds of the library's candidates,
  best first (section 4.2, step 2: exact before fuzzy).\<close>

fun kindRank :: "MatchKind \<Rightarrow> nat" where
  "kindRank Exact = 0"
| "kindRank Alias = 1"
| "kindRank Fuzzy = 2"

text \<open>Modelled from the spec: the deduplication of the library's search (section 4.2,
  step 4): of the candidates of one entry the first, which after sorting is its best, is
  kept.\<close>

fun dedupe :: "nat list \<Rightarrow> MatchCandidate list \<Rightarrow> MatchCandidate list" where
  "dedupe seen [] = []"
| "dedupe seen (c # cs) =
     (if entryIndex c \<in> set seen then dedupe seen cs
      else c # dedupe (entryIndex c # seen) cs)"

text \<open>Modelled from the spec: the library's \<^verbatim>\<open>search\<close> (section 4.2): normalise the
  query, collect the candidates, sort them by descending score with a stable sort (equal
  scores stay in dataset order), then, again with a stable sort, by match kind, so that
  the exact candidate outranks the fuzzy ones whatever their scores (step 2), and
  deduplicate.\<close>

definition search :: "SearchEngine \<Rightarrow> KaomojiEntry list \<Rightarrow> string \<Rightarrow> MatchCandidate list" where
  "search eng store query =
     (let q = normalizeQuery eng query;
          candidates = candidatesFrom eng (lookupFrom eng 0 store q) q 0 store
      in dedupe []
           (sort_key (\<lambda>c. kindRank (matchKind c)) (sort_key (\<lambda>c. - score c) candidates)))"

subsection \<open>Token Scanner\<close>

text \<open>Modelled from the spec: the opening delimiter of the library's token syntax
  (section 4.3).\<close>

definition tokenOpen :: string where
  "tokenOpen = ''[kaomoji:''"

text \<open>Modelled from the spec: the library's scanner (section 4.3), on the rest of the text
  from offset \<open>off\<close>. At an opening delimiter the keyword is everything up to the
  next closing bracket; without one the token is unterminated and not emitted. A keyword
  may be empty.\<close>

function scanFrom :: "nat \<Rightarrow> string \<Rightarrow> Token list" where
  "scanFrom off [] = []"
| "scanFrom off (c # cs) =
     (if take 9 (c # cs) = tokenOpen \<and>
         length (takeWhile (\<lambda>x. x \<noteq> CHR '']'') (drop 9 (c # cs))) < length (drop 9 (c # cs))
      then
        (let kw = takeWhile (\<lambda>x. x \<noteq> CHR '']'') (drop 9 (c # cs))
         in \<lparr> rawKeyword = kw, startOffset = off, endOffset = off + 10 + length kw,
              originalText = take (10 + length kw) (c # cs) \<rparr> #
            scanFrom (off + 10 + length kw) (drop (10 + length kw) (c # cs)))
      else scanFrom (Suc off) cs)"
  by pat_completeness auto
termination
  by (relation "measure (\<lambda>(off, s). length s)") auto

text \<open>Modelled from the spec: the library's \<^verbatim>\<open>scan\<close> (section 4.3).\<close>

definition scan :: "string \<Rightarrow> Token list" where
  "scan txt = scanFrom 0 txt"

subsection \<open>Replacement Engine\<close>

text \<open>Modelled from the spec: the strategies of the library's replacement engine
  (section 4.4). Each of \<^verbatim>\<open>first\<close>, \<^verbatim>\<open>best\<close> and \<^verbatim>\<open>all\<close> is a single-winner policy: the
  top candidate, if there is one.\<close>

fun select :: "string \<Rightarrow> MatchCandidate list \<Rightarrow> MatchCandidate option" where
  "select strat [] = None"
| "select strat (c # cs) = Some c"

text \<open>Modelled from the spec: what the library's replacement engine does with one
  token (section 4.4): the string that takes the token's place, and the record.\<close>

definition processToken ::
  "SearchEngine \<Rightarrow> KaomojiEntry list \<Rightarrow> ReplaceOptions \<Rightarrow> Token \<Rightarrow> string \<times> ReplacementRecord" where
  "processToken eng store opts t =
     (case select (strategy opts) (search eng store (normalizeQuery eng (rawKeyword t))) of
        Some c \<Rightarrow>
          (kaomoji (entry c),
           \<lparr>rawKeyword = rawKeyword t, outcome = replaced,
            chosenKaomoji = Some (kaomoji (entry c))\<rparr>)
      | None \<Rightarrow>
          if keepOriginalOnNotFound opts
          then (originalText t,
                \<lparr>rawKeyword = rawKeyword t, outcome = notFoundKept, chosenKaomoji = None\<rparr>)
          else if markNotFound opts
          then (''[?'' @ rawKeyword t @ '']'',
                \<lparr>rawKeyword = rawKeyword t, outcome = notFoundMarked, chosenKaomoji = None\<rparr>)
          else ([],
                \<lparr>rawKeyword = rawKeyword t, outcome = notFoundRemoved, chosenKaomoji = None\<rparr>))"

text \<open>Modelled from the spec: the single pass of the library's replacement engine that
  builds the output from the original text and the original offsets (section 4.4):
  from position \<open>pos\<close>, copy up to the next token, put its replacement, go on after it.\<close>

fun applyReplacements :: "string \<Rightarrow> nat \<Rightarrow> (Token \<times> string) list \<Rightarrow> string" where
  "applyReplacements txt pos [] = drop pos txt"
| "applyReplacements txt pos ((t, r) # rest) =
     take (startOffset t - pos) (drop pos txt) @ r @ applyReplacements txt (endOffset t) rest"

text \<open>Modelled from the spec: the library's \<^verbatim>\<open>replaceText\<close> (section 4.4).\<close>

definition replaceText ::
  "SearchEngine \<Rightarrow> KaomojiEntry list \<Rightarrow> string \<Rightarrow> ReplaceOptions \<Rightarrow> ReplacementResult" where
  "replaceText eng store txt opts =
     (let tokens = scan txt;
          outs = map (processToken eng store opts) tokens;
          succeeded = length (filter (\<lambda>r. outcome r = replaced) (map snd outs));
          failed = length (filter (\<lambda>r. outcome r \<noteq> replaced) (map snd outs))
      in \<lparr> result_text = applyReplacements txt 0 (zip tokens (map fst outs)),
           hasReplacements = (0 < succeeded + failed),
           successCount = succeeded,
           failureCount = failed,
           records = map snd outs \<rparr>)"

subsection \<open>The replacer object and its calls\<close>

text \<open>Modelled from the spec: the library's replacer object (sections 4 and 6): the
  search engine it was built with, the Dataset Store, and the engine-wide default options
  set by \<^verbatim>\<open>setConfig\<close>.\<close>

record Replacer =
  searchEngine :: SearchEngine
  dataStore :: "KaomojiEntry list"
  config :: ReplaceOptions

text \<open>Modelled from the spec: the calls the library's replacer object accepts
  (section 6) and what they return.\<close>

datatype CoreCall =
    Search string
  | ReplaceText string "ReplaceOptions option"
  | SetConfig ReplaceOptions
  | LoadKaomojis "KaomojiEntry list"

datatype CoreResponse =
    Candidates "MatchCandidate list"
  | Result ReplacementResult
  | Done

text \<open>Modelled from the spec: one call of the library's replacer object. Searching and
  replacing read the store; only a bulk load replaces it (sections 3 and 5).\<close>

fun coreStep :: "CoreCall \<Rightarrow> Replacer \<Rightarrow> CoreResponse \<times> Replacer" where
  "coreStep (Search q) r = (Candidates (search (searchEngine r) (dataStore r) q), r)"
| "coreStep (ReplaceText txt given) r =
     (Result (replaceText (searchEngine r) (dataStore r) txt
                (case given of None \<Rightarrow> config r | Some opts \<Rightarrow> opts)), r)"
| "coreStep (SetConfig opts) r = (Done, r\<lparr>config := opts\<rparr>)"
| "coreStep (LoadKaomojis entries) r = (Done, r\<lparr>dataStore := entries\<rparr>)"

text \<open>Modelled from the spec: the calls of the library's replacer object that replace the
  Dataset Store (section 3: only the bulk load).\<close>

fun isLoad :: "CoreCall \<Rightarrow> bool" where
  "isLoad (LoadKaomojis entries) = True"
| "isLoad c = False"

text \<open>Modelled from the spec: a sequence of calls of the library's replacer object.\<close>

fun coreRun :: "CoreCall list \<Rightarrow> Replacer \<Rightarrow> Replacer" where
  "coreRun [] r = r"
| "coreRun (c # cs) r = coreRun cs (snd (coreStep c r))"

subsection \<open>An engine and a dataset to run the library on\<close>

text \<open>Modelled from the spec: case folding for the library's normalisation (section 4.2,
  step 1), on ASCII letters.\<close>

definition foldCase :: "char \<Rightarrow> char" where
  "foldCase c =
     (case map_of (zip ''ABCDEFGHIJKLMNOPQRSTUVWXYZ'' ''abcdefghijklmnopqrstuvwxyz'') c of
        Some l \<Rightarrow> l
      | None \<Rightarrow> c)"

text \<open>Modelled from the spec: an engine for the library's search that satisfies section
  4.2: normalisation drops spaces and folds the case of ASCII letters; identical strings
  score 1, a non-empty string and a proper extension of it score 1/2, all others 0; the
  threshold is the default 0.3.\<close>

definition exampleEngine :: SearchEngine where
  "exampleEngine =
     \<lparr> normalizeQuery = (\<lambda>k. map foldCase (filter (\<lambda>c. c \<noteq> CHR '' '') k)),
       similarity = (\<lambda>a b.
         if a = b then 1
         else if a \<noteq> [] \<and> b \<noteq> [] \<and> (take (length a) b = a \<or> take (length b) a = b)
         then 1 / 2 else 0),
       threshold = 3 / 10 \<rparr>"

text \<open>Modelled from the spec: the dataset of the examples in section 8.\<close>

definition exampleStore :: "KaomojiEntry list" where
  "exampleStore = [\<lparr>keyword = ''happy'', kaomoji = ''(^_^)'', aliases = [], tags = []\<rparr>]"

text \<open>Modelled from the spec: a dataset for the library's search in which a query
  has an exact match, two fuzzy matches of equal score and an entry that does not
  match.\<close>

definition rankedStore :: "KaomojiEntry list" where
  "rankedStore =
     [\<lparr>keyword = ''hap'', kaomoji = ''(^^)'', aliases = [], tags = []\<rparr>,
      \<lparr>keyword = ''happy'', kaomoji = ''(^_^)'', aliases = [''joy''], tags = []\<rparr>,
      \<lparr>keyword = ''glad'', kaomoji = ''(^o^)'', aliases = [], tags = [''happy days'']\<rparr>,
      \<lparr>keyword = ''sad'', kaomoji = ''(T_T)'', aliases = [], tags = []\<rparr>]"

text \<open>Modelled from the spec: a dataset for the library's search in which the query
  \<^verbatim>\<open>happy\<close> is a tag of the first entry and the keyword of the second.\<close>

definition tieStore :: "KaomojiEntry list" where
  "tieStore =
     [\<lparr>keyword = ''joy'', kaomoji = ''(^o^)'', aliases = [], tags = [''happy'']\<rparr>,
      \<lparr>keyword = ''happy'', kaomoji = ''(^_^)'', aliases = [], tags = []\<rparr>]"

text \<open>Modelled from the spec: a replacer object of the library over the example
  engine and dataset.\<close>

definition exampleReplacer :: Replacer where
  "exampleReplacer =
     \<lparr> searchEngine = exampleEngine, dataStore = exampleStore,
       config = \<lparr>keepOriginalOnNotFound = True, markNotFound = False, strategy = ''best''\<rparr> \<rparr>"

section \<open>Examples for the extension\<close>

subsection \<open>A small library and chat to run the extension on\<close>

text \<open>
  A stand-in library: the replacer is the list of kaomoji it was given, the only keyword
  it knows is \<^verbatim>\<open>happy\<close>, and the manager parses two fixed documents.
\<close>

definition exampleLib :: "(string list, string list, string list) KaomojiReplacerLib" where
  "exampleLib =
     \<lparr> lib_replaceText = (\<lambda>r t opts.
         if t = ''[kaomoji:happy]'' \<and> r \<noteq> []
         then \<lparr> result_text = hd r, hasReplacements = True, successCount = 1, failureCount = 0,
                records = [\<lparr>rawKeyword = ''happy'', outcome = replaced,
                            chosenKaomoji = Some (hd r)\<rparr>] \<rparr>
         else \<lparr> result_text = t, hasReplacements = False, successCount = 0, failureCount = 0,
                records = [] \<rparr>),
       lib_loadKaomojis = (\<lambda>d r. d),
       lib_newManager = [],
       lib_loadFromJSON = (\<lambda>json m.
         if json = ''user'' then Some [''(^_^)'']
         else if json = ''template'' then Some [''(o_o)'']
         else None),
       lib_getAllKaomojis = (\<lambda>m. m) \<rparr>"

definition exampleMessage :: Message where
  "exampleMessage =
     \<lparr> is_user = False, is_system = False, mes = ''[kaomoji:happy]'', extra = None \<rparr>"

definition exampleState :: "string list Extension" where
  "exampleState =
     \<lparr> chat = [exampleMessage], extension_settings = defaultSettings,
       replacer = Some [''(^_^)''], host_calls = [] \<rparr>"

definition emptyMessage :: Message where
  "emptyMessage = \<lparr> is_user = False, is_system = False, mes = [], extra = None \<rparr>"

definition emptyTextState :: "string list Extension" where
  "emptyTextState =
     \<lparr> chat = [emptyMessage], extension_settings = defaultSettings,
       replacer = Some [''(^_^)''], host_calls = [] \<rparr>"

text \<open>The same chat with \<^verbatim>\<open>modifyMode\<close> set to \<^verbatim>\<open>content\<close>; a chat whose first
  message carries a backup; the chat after a rewrite in \<^verbatim>\<open>content\<close> mode, with the setting
  then changed to \<^verbatim>\<open>display\<close>; and a chat whose message already has a \<^verbatim>\<open>display_text\<close>
  from the host.\<close>

definition contentModeState :: "string list Extension" where
  "contentModeState =
     exampleState\<lparr>extension_settings := defaultSettings\<lparr>modifyMode := ''content''\<rparr>\<rparr>"

definition backedUpState :: "string list Extension" where
  "backedUpState =
     exampleState\<lparr>chat :=
       [exampleMessage\<lparr>extra := Some \<lparr>kaomoji_original = Some ''first text'',
                                         display_text = None\<rparr>\<rparr>,
        exampleMessage]\<rparr>"

definition modeSwitchedState :: "string list Extension" where
  "modeSwitchedState =
     (snd (processMessage exampleLib 0 contentModeState))\<lparr>extension_settings := defaultSettings\<rparr>"

definition translatedState :: "string list Extension" where
  "translatedState =
     exampleState\<lparr>chat :=
       [exampleMessage\<lparr>extra := Some \<lparr>kaomoji_original = None,
                                         display_text = Some ''translated''\<rparr>\<rparr>]\<rparr>"

section \<open>Properties of the extension\<close>

subsection \<open>Auxiliary facts\<close>

lemma fetchAndLoad_host_calls:
  "host_calls (snd (snd (fetchAndLoad lib fetch url notOk manager s))) =
     host_calls s @ [Fetch url]"
  by (simp add: fetchAndLoad_def Let_def split: FetchResult.splits option.splits)

lemma fetch_failed_attemptFails:
  assumes "fetch url = NetworkError \<or> fetch url = Response False status body"
  shows "attemptFails lib fetch url"
  using assms by (auto simp: attemptFails_def)

lemma fetchAndLoad_failed:
  assumes "attemptFails lib fetch url"
  shows "\<exists>e. fetchAndLoad lib fetch url notOk (lib_newManager lib) s =
           (Inl e, lib_newManager lib, s\<lparr>host_calls := host_calls s @ [Fetch url]\<rparr>)"
  using assms
  by (auto simp: attemptFails_def fetchAndLoad_def Let_def split: FetchResult.splits)

lemma fetchAndLoad_succeeded:
  assumes "fetch url = Response True status jsonText"
    and "lib_loadFromJSON lib jsonText manager = Some manager'"
    and "replacer s = Some r"
  shows "fetchAndLoad lib fetch url notOk manager s =
           (Inr (), manager',
            s\<lparr>host_calls := host_calls s @ [Fetch url],
              replacer := Some (lib_loadKaomojis lib (lib_getAllKaomojis lib manager') r)\<rparr>)"
  using assms by (simp add: fetchAndLoad_def Let_def)

lemma modifyMessageDisplay_backup:
  assumes "chat_at s j = Some m" "backup m = Some b" "b \<noteq> []"
  shows "\<exists>m'. chat_at (snd (modifyMessageDisplay i d orig s)) j = Some m' \<and> backup m' = Some b"
  using assms
  by (cases "i = j")
     (auto simp: modifyMessageDisplay_def chat_at_def backup_def Let_def
           split: option.splits if_splits)

lemma modifyMessageContent_backup:
  assumes "chat_at s j = Some m" "backup m = Some b" "b \<noteq> []"
  shows "\<exists>m'. chat_at (snd (modifyMessageContent i d orig s)) j = Some m' \<and> backup m' = Some b"
  using assms
  by (cases "i = j")
     (auto simp: modifyMessageContent_def chat_at_def backup_def Let_def
           split: option.splits if_splits)

lemma processMessage_backup:
  assumes "chat_at s j = Some m" "backup m = Some b" "b \<noteq> []"
  shows "\<exists>m'. chat_at (snd (processMessage lib i s)) j = Some m' \<and> backup m' = Some b"
proof -
  note d = modifyMessageDisplay_backup[OF assms] and c = modifyMessageContent_backup[OF assms]
  show ?thesis
    using assms d c
    by (auto simp: processMessage_def Let_def split: option.splits)
qed

lemma call_backup:
  assumes "chat_at s j = Some m" "backup m = Some b" "b \<noteq> []"
  shows "\<exists>m'. chat_at (call lib c s) j = Some m' \<and> backup m' = Some b"
  using assms
  by (cases c)
     (simp_all add: processMessage_backup modifyMessageDisplay_backup modifyMessageContent_backup)

lemma calls_backup:
  assumes "chat_at s j = Some m" "backup m = Some b" "b \<noteq> []"
  shows "\<exists>m'. chat_at (calls lib cs s) j = Some m' \<and> backup m' = Some b"
  using assms
proof (induction cs arbitrary: s m)
  case Nil
  then show ?case by simp
next
  case (Cons c cs)
  from call_backup[OF Cons.prems, of lib c]
  obtain m1 where "chat_at (call lib c s) j = Some m1" "backup m1 = Some b" by blast
  from Cons.IH[OF this \<open>b \<noteq> []\<close>] show ?case by simp
qed

lemma modifyMessageDisplay_changes:
  assumes "chat_at s i = Some m"
  shows "snd (modifyMessageDisplay i d orig s) \<noteq> s"
proof -
  have "host_calls (snd (modifyMessageDisplay i d orig s)) \<noteq> host_calls s"
    using assms by (simp add: modifyMessageDisplay_def Let_def)
  then show ?thesis by auto
qed

lemma modifyMessageContent_changes:
  assumes "chat_at s i = Some m"
  shows "snd (modifyMessageContent i d orig s) \<noteq> s"
proof -
  have "host_calls (snd (modifyMessageContent i d orig s)) \<noteq> host_calls s"
    using assms by (simp add: modifyMessageContent_def Let_def)
  then show ?thesis by auto
qed

text \<open>When \<^verbatim>\<open>processMessage\<close> returns true, every guard was passed and the new state is
  that of the modify function chosen by \<^verbatim>\<open>modifyMode\<close>.\<close>

lemma processMessage_True:
  assumes "processMessage lib messageId s = (True, s')"
  shows "\<exists>message r. chat_at s messageId = Some message \<and> \<not> is_system message \<and>
           (if is_user message then processUserMessages (extension_settings s)
            else processAIMessages (extension_settings s)) \<and>
           replacer s = Some r \<and>
           hasReplacements
             (lib_replaceText lib r (mes message) (replaceOptionsOf (extension_settings s))) \<and>
           successCount
             (lib_replaceText lib r (mes message) (replaceOptionsOf (extension_settings s))) \<noteq> 0 \<and>
           s' = snd ((if modifyMode (extension_settings s) = ''display''
                      then modifyMessageDisplay else modifyMessageContent)
                     messageId
                     (result_text
                        (lib_replaceText lib r (mes message) (replaceOptionsOf (extension_settings s))))
                     (mes message) s)"
  using assms
  by (auto simp: processMessage_def Let_def split: option.splits if_splits)

lemma processMessage_changed_iff:
  assumes "processMessage lib messageId s = (b, s')"
  shows "(s' \<noteq> s) = b"
  using assms modifyMessageDisplay_changes[of s messageId] modifyMessageContent_changes[of s messageId]
  by (auto simp: processMessage_def Let_def split: option.splits if_splits)

lemma modifyMessageDisplay_result:
  assumes "chat_at s i = Some message"
  shows "\<exists>message'.
           snd (modifyMessageDisplay i d orig s) =
             s\<lparr>chat := (chat s)[i := message'],
               host_calls := host_calls s @ [UpdateMessageBlock i message', SaveChat]\<rparr> \<and>
           mes message' = mes message \<and> display message' = Some d \<and>
           backup message' = (if truthy (backup message) then backup message else Some orig) \<and>
           is_user message' = is_user message \<and> is_system message' = is_system message"
proof (cases "extra message")
  case None
  show ?thesis
    by (rule exI[of _ "message\<lparr>extra := Some \<lparr>kaomoji_original = Some orig, display_text = Some d\<rparr>\<rparr>"])
       (use assms None in \<open>simp add: modifyMessageDisplay_def backup_def display_def Let_def\<close>)
next
  case (Some e)
  show ?thesis
  proof (cases "truthy (kaomoji_original e)")
    case True
    show ?thesis
      by (rule exI[of _ "message\<lparr>extra := Some (e\<lparr>display_text := Some d\<rparr>)\<rparr>"])
         (use assms Some True in \<open>simp add: modifyMessageDisplay_def backup_def display_def Let_def\<close>)
  next
    case False
    show ?thesis
      by (rule exI[of _ "message\<lparr>extra := Some (e\<lparr>kaomoji_original := Some orig,
                                                    display_text := Some d\<rparr>)\<rparr>"])
         (use assms Some False in \<open>simp add: modifyMessageDisplay_def backup_def display_def Let_def\<close>)
  qed
qed

lemma modifyMessageContent_result:
  assumes "chat_at s i = Some message"
  shows "\<exists>message'.
           snd (modifyMessageContent i n orig s) =
             s\<lparr>chat := (chat s)[i := message'],
               host_calls := host_calls s @
                 [UpdateMessageBlock i message', SaveChat, Emit_MESSAGE_EDITED i]\<rparr> \<and>
           mes message' = n \<and> display message' = display message \<and>
           backup message' = (if truthy (backup message) then backup message else Some orig) \<and>
           is_user message' = is_user message \<and> is_system message' = is_system message"
proof (cases "extra message")
  case None
  show ?thesis
    by (rule exI[of _ "message\<lparr>extra := Some \<lparr>kaomoji_original = Some orig, display_text = None\<rparr>,
                               mes := n\<rparr>"])
       (use assms None in \<open>simp add: modifyMessageContent_def backup_def display_def Let_def\<close>)
next
  case (Some e)
  show ?thesis
  proof (cases "truthy (kaomoji_original e)")
    case True
    show ?thesis
      by (rule exI[of _ "message\<lparr>extra := Some e, mes := n\<rparr>"])
         (use assms Some True in \<open>simp add: modifyMessageContent_def backup_def display_def Let_def\<close>)
  next
    case False
    show ?thesis
      by (rule exI[of _ "message\<lparr>extra := Some (e\<lparr>kaomoji_original := Some orig\<rparr>), mes := n\<rparr>"])
         (use assms Some False in \<open>simp add: modifyMessageContent_def backup_def display_def Let_def\<close>)
  qed
qed

subsection \<open>Loading the dataset\<close>

text \<open>
  C3. In \<^verbatim>\<open>loadKaomojiData\<close>, when the fetch of the user dataset is rejected or its
  response is not ok, the template dataset is fetched next. When both attempts fail (a
  rejected fetch, a response that is not ok, or a text the manager cannot parse) the
  function throws \<^verbatim>\<open>No kaomoji data available\<close> and the replacer is as before. When the
  user dataset is fetched and parsed, its entries are loaded into the replacer and the
  template is not fetched; when the first attempt fails and the template is fetched and
  parsed, the template's entries are loaded into the replacer.
\<close>

theorem loadKaomojiData_fallback:
  "(fetch userDataUrl = NetworkError \<or> fetch userDataUrl = Response False status body \<longrightarrow>
      host_calls (snd (loadKaomojiData lib fetch s)) =
        host_calls s @ [Fetch userDataUrl, Fetch templateDataUrl]) \<and>
   (attemptFails lib fetch userDataUrl \<and> attemptFails lib fetch templateDataUrl \<longrightarrow>
      loadKaomojiData lib fetch s =
        (Inl Error_No_kaomoji_data_available,
         s\<lparr>host_calls := host_calls s @ [Fetch userDataUrl, Fetch templateDataUrl]\<rparr>)) \<and>
   (fetch userDataUrl = Response True status' jsonText \<and>
    lib_loadFromJSON lib jsonText (lib_newManager lib) = Some manager \<and> replacer s = Some r \<longrightarrow>
      loadKaomojiData lib fetch s =
        (Inr (),
         s\<lparr>host_calls := host_calls s @ [Fetch userDataUrl],
           replacer := Some (lib_loadKaomojis lib (lib_getAllKaomojis lib manager) r)\<rparr>)) \<and>
   (attemptFails lib fetch userDataUrl \<and>
    fetch templateDataUrl = Response True status' jsonText \<and>
    lib_loadFromJSON lib jsonText (lib_newManager lib) = Some manager \<and> replacer s = Some r \<longrightarrow>
      loadKaomojiData lib fetch s =
        (Inr (),
         s\<lparr>host_calls := host_calls s @ [Fetch userDataUrl, Fetch templateDataUrl],
           replacer := Some (lib_loadKaomojis lib (lib_getAllKaomojis lib manager) r)\<rparr>))"
proof -
  let ?s1 = "s\<lparr>host_calls := host_calls s @ [Fetch userDataUrl]\<rparr>"
  let ?s2 = "s\<lparr>host_calls := host_calls s @ [Fetch userDataUrl, Fetch templateDataUrl]\<rparr>"
  have user: "\<exists>e. fetchAndLoad lib fetch userDataUrl Error_HTTP (lib_newManager lib) s =
                 (Inl e, lib_newManager lib, ?s1)"
    if "attemptFails lib fetch userDataUrl"
    using that by (rule fetchAndLoad_failed)
  have first: "host_calls (snd (loadKaomojiData lib fetch s)) =
                 host_calls s @ [Fetch userDataUrl, Fetch templateDataUrl]"
    if uf: "fetch userDataUrl = NetworkError \<or> fetch userDataUrl = Response False status body"
  proof -
    from uf have "attemptFails lib fetch userDataUrl"
      by (rule fetch_failed_attemptFails)
    from user[OF this] obtain e where
      u: "fetchAndLoad lib fetch userDataUrl Error_HTTP (lib_newManager lib) s =
            (Inl e, lib_newManager lib, ?s1)"
      by blast
    obtain x m' s2 where t: "fetchAndLoad lib fetch templateDataUrl Error_Template_not_found
                               (lib_newManager lib) ?s1 = (x, m', s2)"
      using prod_cases3 by blast
    have "host_calls s2 = host_calls s @ [Fetch userDataUrl, Fetch templateDataUrl]"
      using fetchAndLoad_host_calls[of lib fetch templateDataUrl Error_Template_not_found
              "lib_newManager lib" ?s1]
      by (simp add: t)
    then show ?thesis
      by (cases x) (simp_all add: loadKaomojiData_def u t)
  qed
  have second: "loadKaomojiData lib fetch s = (Inl Error_No_kaomoji_data_available, ?s2)"
    if uf: "attemptFails lib fetch userDataUrl" and tf: "attemptFails lib fetch templateDataUrl"
  proof -
    from user[OF uf] obtain e where
      u: "fetchAndLoad lib fetch userDataUrl Error_HTTP (lib_newManager lib) s =
            (Inl e, lib_newManager lib, ?s1)"
      by blast
    from fetchAndLoad_failed[OF tf, of Error_Template_not_found ?s1] obtain e' where
      t: "fetchAndLoad lib fetch templateDataUrl Error_Template_not_found
            (lib_newManager lib) ?s1 =
            (Inl e', lib_newManager lib,
             ?s1\<lparr>host_calls := host_calls ?s1 @ [Fetch templateDataUrl]\<rparr>)"
      by blast
    show ?thesis
      by (simp add: loadKaomojiData_def u t)
  qed
  have third: "loadKaomojiData lib fetch s =
        (Inr (),
         s\<lparr>host_calls := host_calls s @ [Fetch userDataUrl],
           replacer := Some (lib_loadKaomojis lib (lib_getAllKaomojis lib manager) r)\<rparr>)"
    if "fetch userDataUrl = Response True status' jsonText"
       "lib_loadFromJSON lib jsonText (lib_newManager lib) = Some manager" "replacer s = Some r"
    using fetchAndLoad_succeeded[where fetch = fetch and url = userDataUrl
            and notOk = Error_HTTP, OF that]
    by (simp add: loadKaomojiData_def)
  have fourth: "loadKaomojiData lib fetch s =
        (Inr (),
         s\<lparr>host_calls := host_calls s @ [Fetch userDataUrl, Fetch templateDataUrl],
           replacer := Some (lib_loadKaomojis lib (lib_getAllKaomojis lib manager) r)\<rparr>)"
    if uf: "attemptFails lib fetch userDataUrl"
      and t1: "fetch templateDataUrl = Response True status' jsonText"
      and t2: "lib_loadFromJSON lib jsonText (lib_newManager lib) = Some manager"
      and t3: "replacer s = Some r"
  proof -
    from user[OF uf] obtain e where
      u: "fetchAndLoad lib fetch userDataUrl Error_HTTP (lib_newManager lib) s =
            (Inl e, lib_newManager lib, ?s1)"
      by blast
    have "replacer ?s1 = Some r" using t3 by simp
    from fetchAndLoad_succeeded[where fetch = fetch and url = templateDataUrl
           and notOk = Error_Template_not_found, OF t1 t2 this]
    show ?thesis
      by (simp add: loadKaomojiData_def u)
  qed
  from first second third fourth show ?thesis by blast
qed

theorem loadKaomojiData_fallback_witness:
  "host_calls (snd (loadKaomojiData exampleLib (\<lambda>url. NetworkError) exampleState)) =
     [Fetch userDataUrl, Fetch templateDataUrl] \<and>
   loadKaomojiData exampleLib
       (\<lambda>url. if url = userDataUrl then Response True 200 ''not json'' else Response False 404 [])
       exampleState =
     (Inl Error_No_kaomoji_data_available,
      exampleState\<lparr>host_calls := [Fetch userDataUrl, Fetch templateDataUrl]\<rparr>) \<and>
   loadKaomojiData exampleLib (\<lambda>url. Response True 200 ''user'') exampleState =
     (Inr (), exampleState\<lparr>host_calls := [Fetch userDataUrl], replacer := Some [''(^_^)'']\<rparr>) \<and>
   loadKaomojiData exampleLib
       (\<lambda>url. if url = userDataUrl then Response False 404 [] else Response True 200 ''template'')
       exampleState =
     (Inr (),
      exampleState\<lparr>host_calls := [Fetch userDataUrl, Fetch templateDataUrl],
                   replacer := Some [''(o_o)'']\<rparr>)"
proof -
  let ?broken = "\<lambda>url. if url = userDataUrl then Response True 200 ''not json''
                      else Response False 404 []"
  let ?fallback = "\<lambda>url. if url = userDataUrl then Response False 404 []
                        else Response True 200 ''template''"
  have urls: "userDataUrl \<noteq> templateDataUrl"
    by (simp add: userDataUrl_def templateDataUrl_def)
  have a: "host_calls (snd (loadKaomojiData exampleLib (\<lambda>url. NetworkError) exampleState)) =
             [Fetch userDataUrl, Fetch templateDataUrl]"
    using loadKaomojiData_fallback[of "\<lambda>url. NetworkError" 0 "[]" exampleLib exampleState]
    by (simp add: exampleState_def)
  have fails: "attemptFails exampleLib ?broken userDataUrl"
              "attemptFails exampleLib ?broken templateDataUrl"
              "attemptFails exampleLib ?fallback userDataUrl"
    using urls by (simp_all add: attemptFails_def exampleLib_def)
  have b: "loadKaomojiData exampleLib ?broken exampleState =
             (Inl Error_No_kaomoji_data_available,
              exampleState\<lparr>host_calls := [Fetch userDataUrl, Fetch templateDataUrl]\<rparr>)"
    using loadKaomojiData_fallback[of ?broken 0 "[]" exampleLib exampleState] fails(1,2)
    by (simp add: exampleState_def)
  have c: "loadKaomojiData exampleLib (\<lambda>url. Response True 200 ''user'') exampleState =
             (Inr (), exampleState\<lparr>host_calls := [Fetch userDataUrl],
                                   replacer := Some [''(^_^)'']\<rparr>)"
    using loadKaomojiData_fallback[of "\<lambda>url. Response True 200 ''user''" 0 "[]"
            exampleLib exampleState 200 "''user''" "[''(^_^)'']" "[''(^_^)'']"]
    by (simp add: exampleState_def exampleLib_def)
  have d: "loadKaomojiData exampleLib ?fallback exampleState =
           (Inr (),
            exampleState\<lparr>host_calls := [Fetch userDataUrl, Fetch templateDataUrl],
                         replacer := Some [''(o_o)'']\<rparr>)"
    using urls fails(3)
      loadKaomojiData_fallback[of ?fallback 0 "[]" exampleLib exampleState 200 "''template''"
        "[''(o_o)'']" "[''(^_^)'']"]
    by (simp add: exampleState_def exampleLib_def)
  from a b c d show ?thesis by blast
qed

subsection \<open>Display overlay and content rewrite\<close>

text \<open>
  C4. For a message that \<^verbatim>\<open>processMessage\<close> has processed (it returned true): with
  \<^verbatim>\<open>modifyMode\<close> \<^verbatim>\<open>display\<close> the rewritten text is stored in \<^verbatim>\<open>message.extra.display_text\<close>,
  \<^verbatim>\<open>message.mes\<close> is unchanged, and no event is emitted; with \<^verbatim>\<open>modifyMode\<close>
  \<^verbatim>\<open>content\<close>, \<^verbatim>\<open>message.mes\<close> is the rewritten text, \<^verbatim>\<open>display_text\<close> is as before, and
  \<^verbatim>\<open>MESSAGE_EDITED\<close> is emitted for the message after the block update and the save. In
  both modes the backup holds the earlier backup or the text from before, never the
  rewritten text, and no other message changes.
\<close>

theorem processMessage_modifyMode:
  assumes "processMessage lib messageId s = (True, s')"
    and "chat_at s messageId = Some message"
    and "replacer s = Some r"
  shows
    "(modifyMode (extension_settings s) = ''display'' \<longrightarrow>
        (\<exists>message'.
           s' = s\<lparr>chat := (chat s)[messageId := message'],
                  host_calls := host_calls s @ [UpdateMessageBlock messageId message', SaveChat]\<rparr> \<and>
           mes message' = mes message \<and>
           display message' =
             Some (result_text
                     (lib_replaceText lib r (mes message) (replaceOptionsOf (extension_settings s)))) \<and>
           backup message' =
             (if truthy (backup message) then backup message else Some (mes message)))) \<and>
     (modifyMode (extension_settings s) = ''content'' \<longrightarrow>
        (\<exists>message'.
           s' = s\<lparr>chat := (chat s)[messageId := message'],
                  host_calls := host_calls s @
                    [UpdateMessageBlock messageId message', SaveChat,
                     Emit_MESSAGE_EDITED messageId]\<rparr> \<and>
           mes message' =
             result_text
               (lib_replaceText lib r (mes message) (replaceOptionsOf (extension_settings s))) \<and>
           display message' = display message \<and>
           backup message' =
             (if truthy (backup message) then backup message else Some (mes message))))"
proof -
  from processMessage_True[OF assms(1)] assms(2,3)
  have s': "s' = snd ((if modifyMode (extension_settings s) = ''display''
                       then modifyMessageDisplay else modifyMessageContent)
                      messageId
                      (result_text
                         (lib_replaceText lib r (mes message) (replaceOptionsOf (extension_settings s))))
                      (mes message) s)"
    by auto
  show ?thesis
  proof (intro conjI impI)
    assume "modifyMode (extension_settings s) = ''display''"
    with s' have "s' = snd (modifyMessageDisplay messageId
                      (result_text
                         (lib_replaceText lib r (mes message) (replaceOptionsOf (extension_settings s))))
                      (mes message) s)"
      by simp
    with modifyMessageDisplay_result[OF assms(2)]
    show "\<exists>message'.
           s' = s\<lparr>chat := (chat s)[messageId := message'],
                  host_calls := host_calls s @ [UpdateMessageBlock messageId message', SaveChat]\<rparr> \<and>
           mes message' = mes message \<and>
           display message' =
             Some (result_text
                     (lib_replaceText lib r (mes message) (replaceOptionsOf (extension_settings s)))) \<and>
           backup message' =
             (if truthy (backup message) then backup message else Some (mes message))"
      by metis
  next
    assume "modifyMode (extension_settings s) = ''content''"
    then have "modifyMode (extension_settings s) \<noteq> ''display''" by simp
    with s' have "s' = snd (modifyMessageContent messageId
                      (result_text
                         (lib_replaceText lib r (mes message) (replaceOptionsOf (extension_settings s))))
                      (mes message) s)"
      by simp
    with modifyMessageContent_result[OF assms(2)]
    show "\<exists>message'.
           s' = s\<lparr>chat := (chat s)[messageId := message'],
                  host_calls := host_calls s @
                    [UpdateMessageBlock messageId message', SaveChat,
                     Emit_MESSAGE_EDITED messageId]\<rparr> \<and>
           mes message' =
             result_text
               (lib_replaceText lib r (mes message) (replaceOptionsOf (extension_settings s))) \<and>
           display message' = display message \<and>
           backup message' =
             (if truthy (backup message) then backup message else Some (mes message))"
      by metis
  qed
qed

theorem processMessage_modifyMode_witness:
  "processMessage exampleLib 0 exampleState =
     (True,
      exampleState
        \<lparr>chat := [exampleMessage\<lparr>extra := Some \<lparr>kaomoji_original = Some ''[kaomoji:happy]'',
                                                   display_text = Some ''(^_^)''\<rparr>\<rparr>],
         host_calls :=
           [UpdateMessageBlock 0
              (exampleMessage\<lparr>extra := Some \<lparr>kaomoji_original = Some ''[kaomoji:happy]'',
                                                display_text = Some ''(^_^)''\<rparr>\<rparr>),
            SaveChat]\<rparr>) \<and>
   (\<exists>message'.
      snd (processMessage exampleLib 0 exampleState) =
        exampleState\<lparr>chat := (chat exampleState)[0 := message'],
                     host_calls := host_calls exampleState @
                       [UpdateMessageBlock 0 message', SaveChat]\<rparr> \<and>
      mes message' = ''[kaomoji:happy]'' \<and> display message' = Some ''(^_^)'' \<and>
      backup message' = Some ''[kaomoji:happy]'') \<and>
   (\<exists>message'.
      snd (processMessage exampleLib 0 contentModeState) =
        contentModeState\<lparr>chat := (chat contentModeState)[0 := message'],
                         host_calls := host_calls contentModeState @
                           [UpdateMessageBlock 0 message', SaveChat, Emit_MESSAGE_EDITED 0]\<rparr> \<and>
      mes message' = ''(^_^)'' \<and> display message' = None \<and>
      backup message' = Some ''[kaomoji:happy]'')"
proof -
  have run: "processMessage exampleLib 0 exampleState =
     (True,
      exampleState
        \<lparr>chat := [exampleMessage\<lparr>extra := Some \<lparr>kaomoji_original = Some ''[kaomoji:happy]'',
                                                   display_text = Some ''(^_^)''\<rparr>\<rparr>],
         host_calls :=
           [UpdateMessageBlock 0
              (exampleMessage\<lparr>extra := Some \<lparr>kaomoji_original = Some ''[kaomoji:happy]'',
                                                display_text = Some ''(^_^)''\<rparr>\<rparr>),
            SaveChat]\<rparr>)"
    by (simp add: processMessage_def modifyMessageDisplay_def chat_at_def exampleState_def
          exampleMessage_def exampleLib_def defaultSettings_def replaceOptionsOf_def Let_def)
  have d: "processMessage exampleLib 0 exampleState =
             (True, snd (processMessage exampleLib 0 exampleState))"
    by (simp add: run)
  have c: "processMessage exampleLib 0 contentModeState =
             (True, snd (processMessage exampleLib 0 contentModeState))"
    by (simp add: processMessage_def modifyMessageContent_def chat_at_def contentModeState_def
          exampleState_def exampleMessage_def exampleLib_def defaultSettings_def
          replaceOptionsOf_def Let_def)
  have md: "chat_at exampleState 0 = Some exampleMessage" "replacer exampleState = Some [''(^_^)'']"
    and mc: "chat_at contentModeState 0 = Some exampleMessage"
            "replacer contentModeState = Some [''(^_^)'']"
    by (simp_all add: chat_at_def exampleState_def contentModeState_def)
  from processMessage_modifyMode[OF d md] processMessage_modifyMode[OF c mc] run
  show ?thesis
    by (simp add: exampleState_def contentModeState_def exampleMessage_def exampleLib_def
          defaultSettings_def replaceOptionsOf_def backup_def display_def)
qed

subsection \<open>The backup of the original text\<close>

text \<open>A library that reports no success on the empty text never makes
  \<^verbatim>\<open>processMessage\<close> rewrite a message whose text is empty.\<close>

lemma processMessage_nonempty:
  assumes "noSuccessOnEmptyText lib" and "processMessage lib i s = (True, s')"
    and "chat_at s i = Some m"
  shows "mes m \<noteq> []"
proof
  assume "mes m = []"
  with processMessage_True[OF assms(2)] assms(3)
  obtain r where "hasReplacements (lib_replaceText lib r [] (replaceOptionsOf (extension_settings s)))"
    "successCount (lib_replaceText lib r [] (replaceOptionsOf (extension_settings s))) \<noteq> 0"
    by auto
  with assms(1)[unfolded noSuccessOnEmptyText_def, rule_format, of r
         "replaceOptionsOf (extension_settings s)"]
  show False by simp
qed

lemma processMessage_rewrites:
  assumes "processMessage lib i s = (True, s')" and "chat_at s i = Some m"
  shows "\<exists>m1 calls'. s' = s\<lparr>chat := (chat s)[i := m1], host_calls := calls'\<rparr> \<and>
           backup m1 = (if truthy (backup m) then backup m else Some (mes m)) \<and>
           is_user m1 = is_user m \<and> is_system m1 = is_system m \<and>
           (modifyMode (extension_settings s) = ''display'' \<longrightarrow>
              mes m1 = mes m \<and> display m1 \<noteq> None) \<and>
           (modifyMode (extension_settings s) \<noteq> ''display'' \<longrightarrow> display m1 = display m)"
proof -
  from processMessage_True[OF assms(1)] assms(2)
  obtain r where s': "s' = snd ((if modifyMode (extension_settings s) = ''display''
                       then modifyMessageDisplay else modifyMessageContent)
                      i (result_text
                           (lib_replaceText lib r (mes m) (replaceOptionsOf (extension_settings s))))
                        (mes m) s)"
    by auto
  let ?rewritten = "result_text
                      (lib_replaceText lib r (mes m) (replaceOptionsOf (extension_settings s)))"
  show ?thesis
  proof (cases "modifyMode (extension_settings s) = ''display''")
    case True
    from modifyMessageDisplay_result[OF assms(2), of ?rewritten "mes m"]
    obtain m1 where
      "snd (modifyMessageDisplay i ?rewritten (mes m) s) =
         s\<lparr>chat := (chat s)[i := m1],
           host_calls := host_calls s @ [UpdateMessageBlock i m1, SaveChat]\<rparr>"
      "mes m1 = mes m" "display m1 = Some ?rewritten"
      "backup m1 = (if truthy (backup m) then backup m else Some (mes m))"
      "is_user m1 = is_user m" "is_system m1 = is_system m"
      by blast
    with s' True show ?thesis
      by (intro exI[of _ m1] exI[of _ "host_calls s @ [UpdateMessageBlock i m1, SaveChat]"]) simp
  next
    case False
    from modifyMessageContent_result[OF assms(2), of ?rewritten "mes m"]
    obtain m1 where
      "snd (modifyMessageContent i ?rewritten (mes m) s) =
         s\<lparr>chat := (chat s)[i := m1],
           host_calls := host_calls s @
             [UpdateMessageBlock i m1, SaveChat, Emit_MESSAGE_EDITED i]\<rparr>"
      "display m1 = display m"
      "backup m1 = (if truthy (backup m) then backup m else Some (mes m))"
      "is_user m1 = is_user m" "is_system m1 = is_system m"
      by blast
    with s' False show ?thesis
      by (intro exI[of _ m1]
            exI[of _ "host_calls s @ [UpdateMessageBlock i m1, SaveChat, Emit_MESSAGE_EDITED i]"])
         simp
  qed
qed

lemma processMessage_noEmptyBackup:
  assumes "noSuccessOnEmptyText lib" and "noEmptyBackup s"
  shows "noEmptyBackup (snd (processMessage lib i s))"
proof (cases "fst (processMessage lib i s)")
  case False
  then have "processMessage lib i s = (False, snd (processMessage lib i s))"
    by (metis prod.collapse)
  from processMessage_changed_iff[OF this] assms(2) show ?thesis by simp
next
  case True
  then have p: "processMessage lib i s = (True, snd (processMessage lib i s))"
    by (metis prod.collapse)
  from processMessage_True[OF p] obtain m where m: "chat_at s i = Some m" by blast
  then have "m \<in> set (chat s)"
    by (auto simp: chat_at_def split: if_splits)
  with assms(2) have old: "backup m \<noteq> Some []"
    by (simp add: noEmptyBackup_def)
  from processMessage_rewrites[OF p m] obtain m1 calls' where
    s': "snd (processMessage lib i s) = s\<lparr>chat := (chat s)[i := m1], host_calls := calls'\<rparr>"
    and b: "backup m1 = (if truthy (backup m) then backup m else Some (mes m))"
    by blast
  from processMessage_nonempty[OF assms(1) p m] b old have "backup m1 \<noteq> Some []"
    by (auto split: if_splits)
  moreover have "set ((chat s)[i := m1]) \<subseteq> insert m1 (set (chat s))"
    by (rule set_update_subset_insert)
  ultimately show ?thesis
    using assms(2) unfolding noEmptyBackup_def s' by auto
qed

subsection \<open>Restoring a message\<close>

lemma restoreMessage_restores:
  assumes "chat_at s messageId = Some message" and "backup message = Some original"
    and "truthy (backup message)"
  shows "\<exists>message'. restoreMessage messageId s =
          (True, s\<lparr>chat := (chat s)[messageId := message'],
                    host_calls := host_calls s @ [UpdateMessageBlock messageId message', SaveChat]\<rparr>) \<and>
        backup message' = None \<and>
        (modifyMode (extension_settings s) = ''display'' \<longrightarrow>
           display message' = None \<and> mes message' = mes message) \<and>
        (modifyMode (extension_settings s) \<noteq> ''display'' \<longrightarrow>
           mes message' = original \<and> display message' = display message) \<and>
        is_user message' = is_user message \<and> is_system message' = is_system message"
proof -
  from assms(2) obtain e where e: "extra message = Some e" "kaomoji_original e = Some original"
    by (auto simp: backup_def split: option.splits)
  from assms(2,3) have ne: "original \<noteq> []" by simp
  show ?thesis
  proof (cases "modifyMode (extension_settings s) = ''display''")
    case True
    show ?thesis
      by (rule exI[of _ "message\<lparr>extra := Some (e\<lparr>display_text := None,
                                                    kaomoji_original := None\<rparr>)\<rparr>"])
         (use assms(1) e ne True in
            \<open>simp add: restoreMessage_def backup_def display_def Let_def\<close>)
  next
    case False
    show ?thesis
      by (rule exI[of _ "message\<lparr>mes := original, extra := Some (e\<lparr>kaomoji_original := None\<rparr>)\<rparr>"])
         (use assms(1) e ne False in
            \<open>simp add: restoreMessage_def backup_def display_def Let_def\<close>)
  qed
qed

lemma restoreMessage_without_backup:
  assumes "chat_at s messageId = None \<or>
           (\<exists>m. chat_at s messageId = Some m \<and> \<not> truthy (backup m))"
  shows "restoreMessage messageId s = (False, s)"
  using assms
  by (auto simp: restoreMessage_def backup_def split: option.splits)

lemma restoreMessage_noEmptyBackup:
  assumes "noEmptyBackup s"
  shows "noEmptyBackup (snd (restoreMessage i s))"
proof (cases "\<exists>m. chat_at s i = Some m \<and> truthy (backup m)")
  case False
  then have "chat_at s i = None \<or> (\<exists>m. chat_at s i = Some m \<and> \<not> truthy (backup m))"
    by (cases "chat_at s i") auto
  from restoreMessage_without_backup[OF this] assms show ?thesis by simp
next
  case True
  then obtain m where "chat_at s i = Some m" "truthy (backup m)"
    by blast
  moreover from this obtain b where "backup m = Some b"
    by (cases "backup m") auto
  ultimately have m: "chat_at s i = Some m" "backup m = Some b" "truthy (backup m)"
    by simp_all
  from restoreMessage_restores[OF this] obtain m' where
    r: "restoreMessage i s =
          (True, s\<lparr>chat := (chat s)[i := m'],
                    host_calls := host_calls s @ [UpdateMessageBlock i m', SaveChat]\<rparr>)"
    and "backup m' = None"
    by blast
  moreover have "set ((chat s)[i := m']) \<subseteq> insert m' (set (chat s))"
    by (rule set_update_subset_insert)
  ultimately show ?thesis
    using assms unfolding noEmptyBackup_def by auto
qed

lemma apiCalls_noEmptyBackup:
  assumes "noSuccessOnEmptyText lib" and "noEmptyBackup s"
  shows "noEmptyBackup (apiCalls lib api s)"
  using assms(2)
proof (induction api arbitrary: s)
  case Nil
  then show ?case by simp
next
  case (Cons c cs)
  have "noEmptyBackup (apiCall lib c s)"
    using Cons.prems assms(1)
    by (cases c) (simp_all add: processMessage_noEmptyBackup restoreMessage_noEmptyBackup)
  from Cons.IH[OF this] show ?case by simp
qed

lemma exampleLib_noSuccessOnEmptyText: "noSuccessOnEmptyText exampleLib"
  by (simp add: noSuccessOnEmptyText_def exampleLib_def)

subsection \<open>The backup is written once\<close>

text \<open>
  C8. \<^verbatim>\<open>message.extra.kaomoji_original\<close> is write-once. A backup that is set, by the
  test the code itself uses for it (a truthy value), is never overwritten: after any
  sequence of calls of \<^verbatim>\<open>processMessage\<close>, \<^verbatim>\<open>modifyMessageDisplay\<close> and
  \<^verbatim>\<open>modifyMessageContent\<close>, on this or any other message and with any arguments, it holds
  the same value. So once \<^verbatim>\<open>processMessage\<close> has modified a message that had no backup,
  the backup is the text from before that modification and still is after any number of
  further calls. The one value that is set and not truthy, the empty string, does not
  occur: \<^verbatim>\<open>processMessage\<close> never backs up an empty text, since the library reports no
  success on it (section 4.4 of the specification), and a chat without an empty backup
  stays without one under all calls of \<^verbatim>\<open>processMessage\<close> and \<^verbatim>\<open>restoreMessage\<close>.
\<close>

theorem kaomoji_original_write_once:
  "(chat_at s j = Some m \<and> truthy (backup m) \<longrightarrow>
      (\<exists>m'. chat_at (calls lib cs s) j = Some m' \<and> backup m' = backup m)) \<and>
   (noSuccessOnEmptyText lib \<and> chat_at s j = Some m \<and> \<not> truthy (backup m) \<and>
    processMessage lib j s = (True, s1) \<longrightarrow>
      (\<exists>m'. chat_at (calls lib cs s1) j = Some m' \<and> backup m' = Some (mes m))) \<and>
   (noSuccessOnEmptyText lib \<and> noEmptyBackup s \<longrightarrow> noEmptyBackup (apiCalls lib api s))"
proof (intro conjI impI)
  assume a: "chat_at s j = Some m \<and> truthy (backup m)"
  then obtain b where "backup m = Some b" "b \<noteq> []"
    by (cases "backup m") auto
  with a calls_backup[of s j m b lib cs]
  show "\<exists>m'. chat_at (calls lib cs s) j = Some m' \<and> backup m' = backup m"
    by simp
next
  assume a: "noSuccessOnEmptyText lib \<and> chat_at s j = Some m \<and> \<not> truthy (backup m) \<and>
             processMessage lib j s = (True, s1)"
  then have m: "chat_at s j = Some m" and p: "processMessage lib j s = (True, s1)"
    and less: "j < length (chat s)"
    by (auto simp: chat_at_def split: if_splits)
  from a have ne: "mes m \<noteq> []"
    using processMessage_nonempty by blast
  from processMessage_rewrites[OF p m] a obtain m1 calls' where
    "s1 = s\<lparr>chat := (chat s)[j := m1], host_calls := calls'\<rparr>" "backup m1 = Some (mes m)"
    by auto
  with less have "chat_at s1 j = Some m1" "backup m1 = Some (mes m)"
    by (simp_all add: chat_at_def)
  from calls_backup[OF this ne]
  show "\<exists>m'. chat_at (calls lib cs s1) j = Some m' \<and> backup m' = Some (mes m)" .
next
  assume "noSuccessOnEmptyText lib \<and> noEmptyBackup s"
  then show "noEmptyBackup (apiCalls lib api s)"
    using apiCalls_noEmptyBackup by blast
qed

theorem kaomoji_original_write_once_witness:
  "backup (chat (calls exampleLib
                   [ModifyMessageContent 0 ''new [kaomoji:happy]'' ''new'', ProcessMessage 0,
                    ModifyMessageDisplay 0 ''shown'' ''other'']
                   (snd (processMessage exampleLib 0 exampleState))) ! 0) =
     Some ''[kaomoji:happy]'' \<and>
   backup (chat (calls exampleLib
                   [ProcessMessage 0, ModifyMessageDisplay 0 ''shown'' ''other'',
                    ModifyMessageContent 1 ''x'' ''y'']
                   backedUpState) ! 0) =
     Some ''first text'' \<and>
   noEmptyBackup (apiCalls exampleLib
                    [Api_processMessage 0, Api_restoreMessage 0, Api_processMessage 0]
                    exampleState)"
proof -
  let ?cs = "[ModifyMessageContent 0 ''new [kaomoji:happy]'' ''new'', ProcessMessage 0,
              ModifyMessageDisplay 0 ''shown'' ''other'']"
  let ?cs' = "[ProcessMessage 0, ModifyMessageDisplay 0 ''shown'' ''other'',
               ModifyMessageContent 1 ''x'' ''y'']"
  let ?api = "[Api_processMessage 0, Api_restoreMessage 0, Api_processMessage 0]"
  note lib = exampleLib_noSuccessOnEmptyText
  have p: "processMessage exampleLib 0 exampleState =
             (True, snd (processMessage exampleLib 0 exampleState))"
    by (simp add: processMessage_def modifyMessageDisplay_def chat_at_def exampleState_def
          exampleMessage_def exampleLib_def defaultSettings_def replaceOptionsOf_def Let_def)
  have h: "noSuccessOnEmptyText exampleLib \<and> chat_at exampleState 0 = Some exampleMessage \<and>
           \<not> truthy (backup exampleMessage) \<and>
           processMessage exampleLib 0 exampleState =
             (True, snd (processMessage exampleLib 0 exampleState))"
    using p lib by (simp add: chat_at_def exampleState_def exampleMessage_def backup_def)
  from kaomoji_original_write_once[where s = exampleState and j = 0 and m = exampleMessage
         and lib = exampleLib and cs = ?cs and api = "[]"
         and ?s1.0 = "snd (processMessage exampleLib 0 exampleState)"] h
  have a: "backup (chat (calls exampleLib ?cs
                           (snd (processMessage exampleLib 0 exampleState))) ! 0) =
             Some ''[kaomoji:happy]''"
    by (auto simp: chat_at_def exampleMessage_def split: if_splits)
  have h': "chat_at backedUpState 0 = Some (chat backedUpState ! 0) \<and>
            truthy (backup (chat backedUpState ! 0))"
    and b0: "backup (chat backedUpState ! 0) = Some ''first text''"
    by (simp_all add: chat_at_def backedUpState_def backup_def)
  from kaomoji_original_write_once[where s = backedUpState and j = 0
         and m = "chat backedUpState ! 0" and lib = exampleLib and cs = ?cs' and api = "[]"
         and ?s1.0 = backedUpState] h' b0
  have b: "backup (chat (calls exampleLib ?cs' backedUpState) ! 0) = Some ''first text''"
    by (auto simp: chat_at_def split: if_splits)
  have "noEmptyBackup exampleState"
    by (simp add: noEmptyBackup_def exampleState_def exampleMessage_def backup_def)
  with kaomoji_original_write_once[where s = exampleState and lib = exampleLib and api = ?api
         and j = 0 and m = exampleMessage and cs = "[]" and ?s1.0 = exampleState] lib
  have c: "noEmptyBackup (apiCalls exampleLib ?api exampleState)"
    by blast
  from a b c show ?thesis by blast
qed

subsection \<open>Restoring undoes a modification made in the same mode\<close>

text \<open>
  C9, as the code has it. For every message with \<^verbatim>\<open>message.extra.kaomoji_original\<close> set
  (truthy, the code's test), \<^verbatim>\<open>restoreMessage\<close> returns true, deletes the backup, updates
  the message block and saves the chat, and with \<^verbatim>\<open>modifyMode\<close> \<^verbatim>\<open>content\<close> restores
  \<^verbatim>\<open>message.mes\<close> to the backed-up text (leaving \<^verbatim>\<open>display_text\<close> alone), with
  \<^verbatim>\<open>modifyMode\<close> \<^verbatim>\<open>display\<close> deletes \<^verbatim>\<open>message.extra.display_text\<close> (leaving
  \<^verbatim>\<open>message.mes\<close> alone); for every message without the backup, and for a missing
  message, it returns false and changes nothing. It is an inverse of the modification
  that \<^verbatim>\<open>processMessage\<close> makes under the same \<^verbatim>\<open>modifyMode\<close> to a message without a
  backup: after a rewrite in \<^verbatim>\<open>content\<close> mode the message has its old text, its old
  \<^verbatim>\<open>display_text\<close> and no backup; after a rewrite in \<^verbatim>\<open>display\<close> mode it has its old text,
  no backup and no \<^verbatim>\<open>display_text\<close>, which is its old state when it had no
  \<^verbatim>\<open>display_text\<close> before. No other message changes.
\<close>

theorem restoreMessage_inverse:
  "(chat_at s messageId = Some message \<and> backup message = Some original \<and>
    truthy (backup message) \<longrightarrow>
      (\<exists>message'. restoreMessage messageId s =
          (True, s\<lparr>chat := (chat s)[messageId := message'],
                    host_calls := host_calls s @ [UpdateMessageBlock messageId message', SaveChat]\<rparr>) \<and>
        backup message' = None \<and>
        (modifyMode (extension_settings s) = ''content'' \<longrightarrow>
           mes message' = original \<and> display message' = display message) \<and>
        (modifyMode (extension_settings s) = ''display'' \<longrightarrow>
           display message' = None \<and> mes message' = mes message) \<and>
        is_user message' = is_user message \<and> is_system message' = is_system message)) \<and>
   ((chat_at s messageId = None \<or>
     (\<exists>m. chat_at s messageId = Some m \<and> \<not> truthy (backup m))) \<longrightarrow>
      restoreMessage messageId s = (False, s)) \<and>
   (noSuccessOnEmptyText lib \<and> chat_at s messageId = Some message \<and>
    \<not> truthy (backup message) \<and>
    (modifyMode (extension_settings s) = ''content'' \<or>
     modifyMode (extension_settings s) = ''display'') \<and>
    processMessage lib messageId s = (True, s1) \<longrightarrow>
      fst (restoreMessage messageId s1) \<and>
      (\<exists>restored. chat (snd (restoreMessage messageId s1)) = (chat s)[messageId := restored] \<and>
         chat_at (snd (restoreMessage messageId s1)) messageId = Some restored \<and>
         mes restored = mes message \<and> backup restored = None \<and>
         display restored =
           (if modifyMode (extension_settings s) = ''content'' then display message else None) \<and>
         is_user restored = is_user message \<and> is_system restored = is_system message))"
proof (intro conjI impI)
  assume a: "chat_at s messageId = Some message \<and> backup message = Some original \<and>
             truthy (backup message)"
  then have "modifyMode (extension_settings s) = ''content'' \<longrightarrow>
             modifyMode (extension_settings s) \<noteq> ''display''"
    by simp
  with a restoreMessage_restores[of s messageId message original]
  show "\<exists>message'. restoreMessage messageId s =
          (True, s\<lparr>chat := (chat s)[messageId := message'],
                    host_calls := host_calls s @ [UpdateMessageBlock messageId message', SaveChat]\<rparr>) \<and>
        backup message' = None \<and>
        (modifyMode (extension_settings s) = ''content'' \<longrightarrow>
           mes message' = original \<and> display message' = display message) \<and>
        (modifyMode (extension_settings s) = ''display'' \<longrightarrow>
           display message' = None \<and> mes message' = mes message) \<and>
        is_user message' = is_user message \<and> is_system message' = is_system message"
    by blast
next
  assume "chat_at s messageId = None \<or>
     (\<exists>m. chat_at s messageId = Some m \<and> \<not> truthy (backup m))"
  then show "restoreMessage messageId s = (False, s)"
    by (rule restoreMessage_without_backup)
next
  assume a: "noSuccessOnEmptyText lib \<and> chat_at s messageId = Some message \<and>
    \<not> truthy (backup message) \<and>
    (modifyMode (extension_settings s) = ''content'' \<or>
     modifyMode (extension_settings s) = ''display'') \<and>
    processMessage lib messageId s = (True, s1)"
  then have m: "chat_at s messageId = Some message"
    and p: "processMessage lib messageId s = (True, s1)"
    and less: "messageId < length (chat s)"
    by (auto simp: chat_at_def split: if_splits)
  from a have ne: "mes message \<noteq> []"
    using processMessage_nonempty by blast
  from processMessage_rewrites[OF p m] a obtain m1 calls' where
    s1: "s1 = s\<lparr>chat := (chat s)[messageId := m1], host_calls := calls'\<rparr>"
    and m1: "backup m1 = Some (mes message)"
            "is_user m1 = is_user message" "is_system m1 = is_system message"
            "modifyMode (extension_settings s) = ''display'' \<longrightarrow> mes m1 = mes message"
            "modifyMode (extension_settings s) \<noteq> ''display'' \<longrightarrow> display m1 = display message"
    by auto
  have at: "chat_at s1 messageId = Some m1"
    using less by (simp add: s1 chat_at_def)
  have mode: "modifyMode (extension_settings s1) = modifyMode (extension_settings s)"
    by (simp add: s1)
  have t: "truthy (backup m1)"
    using m1(1) ne by simp
  from restoreMessage_restores[OF at m1(1) t]
  obtain m2 where r: "restoreMessage messageId s1 =
          (True, s1\<lparr>chat := (chat s1)[messageId := m2],
                     host_calls := host_calls s1 @ [UpdateMessageBlock messageId m2, SaveChat]\<rparr>)"
    and m2: "backup m2 = None"
            "modifyMode (extension_settings s1) = ''display'' \<longrightarrow>
               display m2 = None \<and> mes m2 = mes m1"
            "modifyMode (extension_settings s1) \<noteq> ''display'' \<longrightarrow>
               mes m2 = mes message \<and> display m2 = display m1"
            "is_user m2 = is_user m1" "is_system m2 = is_system m1"
    by blast
  show "fst (restoreMessage messageId s1)"
    by (simp add: r)
  have chat: "chat (snd (restoreMessage messageId s1)) = (chat s)[messageId := m2]"
    by (simp add: r) (simp add: s1)
  have "chat_at (snd (restoreMessage messageId s1)) messageId = Some m2"
    using less by (simp add: chat_at_def chat)
  moreover have "mes m2 = mes message"
    using m2(2,3) m1(4) mode by auto
  moreover have "display m2 =
      (if modifyMode (extension_settings s) = ''content'' then display message else None)"
    using m2(2,3) m1(5) mode a by auto
  ultimately
  show "\<exists>restored. chat (snd (restoreMessage messageId s1)) = (chat s)[messageId := restored] \<and>
         chat_at (snd (restoreMessage messageId s1)) messageId = Some restored \<and>
         mes restored = mes message \<and> backup restored = None \<and>
         display restored =
           (if modifyMode (extension_settings s) = ''content'' then display message else None) \<and>
         is_user restored = is_user message \<and> is_system restored = is_system message"
    using chat m2(1,4,5) m1(2,3) by (intro exI[of _ m2]) simp
qed

theorem restoreMessage_inverse_witness:
  "restoreMessage 0 (snd (processMessage exampleLib 0 contentModeState)) =
     (True,
      contentModeState
        \<lparr>chat := [exampleMessage\<lparr>extra := Some \<lparr>kaomoji_original = None, display_text = None\<rparr>\<rparr>],
         host_calls := host_calls (snd (processMessage exampleLib 0 contentModeState)) @
           [UpdateMessageBlock 0
              (exampleMessage\<lparr>extra := Some \<lparr>kaomoji_original = None, display_text = None\<rparr>\<rparr>),
            SaveChat]\<rparr>) \<and>
   mes (chat (snd (restoreMessage 0 (snd (processMessage exampleLib 0 contentModeState)))) ! 0) =
     ''[kaomoji:happy]'' \<and>
   mes (chat (snd (restoreMessage 0 (snd (processMessage exampleLib 0 exampleState)))) ! 0) =
     ''[kaomoji:happy]'' \<and>
   display (chat (snd (restoreMessage 0 (snd (processMessage exampleLib 0 exampleState)))) ! 0) =
     None \<and>
   backup (chat (snd (restoreMessage 0 (snd (processMessage exampleLib 0 exampleState)))) ! 0) =
     None \<and>
   fst (restoreMessage 0 (snd (processMessage exampleLib 0 exampleState))) \<and>
   restoreMessage 0 exampleState = (False, exampleState) \<and>
   restoreMessage 7 exampleState = (False, exampleState)"
proof -
  let ?c = "snd (processMessage exampleLib 0 contentModeState)"
  let ?d = "snd (processMessage exampleLib 0 exampleState)"
  let ?mc = "exampleMessage\<lparr>extra := Some \<lparr>kaomoji_original = Some ''[kaomoji:happy]'',
                                             display_text = None\<rparr>, mes := ''(^_^)''\<rparr>"
  note lib = exampleLib_noSuccessOnEmptyText
  have c: "?c = contentModeState\<lparr>chat := [?mc],
              host_calls := [UpdateMessageBlock 0 ?mc, SaveChat, Emit_MESSAGE_EDITED 0]\<rparr>"
    by (simp add: processMessage_def modifyMessageContent_def chat_at_def contentModeState_def
          exampleState_def exampleMessage_def exampleLib_def defaultSettings_def
          replaceOptionsOf_def Let_def)
  have pc: "processMessage exampleLib 0 contentModeState = (True, ?c)"
    by (simp add: processMessage_def modifyMessageContent_def chat_at_def contentModeState_def
          exampleState_def exampleMessage_def exampleLib_def defaultSettings_def
          replaceOptionsOf_def Let_def)
  have pd: "processMessage exampleLib 0 exampleState = (True, ?d)"
    by (simp add: processMessage_def modifyMessageDisplay_def chat_at_def
          exampleState_def exampleMessage_def exampleLib_def defaultSettings_def
          replaceOptionsOf_def Let_def)
  have "modifyMode (extension_settings contentModeState) = ''content''"
       "modifyMode (extension_settings exampleState) = ''display''"
    by (simp_all add: contentModeState_def exampleState_def defaultSettings_def)
  then have modes: "modifyMode (extension_settings ?c) = ''content''"
    and mc: "modifyMode (extension_settings contentModeState) = ''content''"
    and md: "modifyMode (extension_settings exampleState) = ''display''"
    by (simp_all add: c)
  have hc: "chat_at ?c 0 = Some ?mc \<and> backup ?mc = Some ''[kaomoji:happy]'' \<and>
            truthy (backup ?mc)"
    by (simp add: c chat_at_def backup_def)
  have start: "chat_at contentModeState 0 = Some exampleMessage"
              "chat_at exampleState 0 = Some exampleMessage"
              "\<not> truthy (backup exampleMessage)" "display exampleMessage = None"
              "mes exampleMessage = ''[kaomoji:happy]''"
    by (simp_all add: chat_at_def contentModeState_def exampleState_def exampleMessage_def
          backup_def display_def)
  have h7: "chat_at exampleState 7 = None"
    by (simp add: chat_at_def exampleState_def)
  from restoreMessage_inverse[where s = ?c and messageId = 0 and message = ?mc
         and original = "''[kaomoji:happy]''" and lib = exampleLib and ?s1.0 = ?c] hc modes
  have r1: "restoreMessage 0 ?c =
     (True,
      contentModeState
        \<lparr>chat := [exampleMessage\<lparr>extra := Some \<lparr>kaomoji_original = None, display_text = None\<rparr>\<rparr>],
         host_calls := host_calls ?c @
           [UpdateMessageBlock 0
              (exampleMessage\<lparr>extra := Some \<lparr>kaomoji_original = None, display_text = None\<rparr>\<rparr>),
            SaveChat]\<rparr>)"
    by (simp only: c)
       (simp add: restoreMessage_def chat_at_def backup_def Let_def contentModeState_def
          exampleState_def exampleMessage_def defaultSettings_def)
  from restoreMessage_inverse[where s = contentModeState and messageId = 0
         and message = exampleMessage and original = "''x''" and lib = exampleLib
         and ?s1.0 = ?c] lib start mc pc
  have r2: "mes (chat (snd (restoreMessage 0 ?c)) ! 0) = ''[kaomoji:happy]''"
    by (auto simp: chat_at_def split: if_splits)
  from restoreMessage_inverse[where s = exampleState and messageId = 0
         and message = exampleMessage and original = "''x''" and lib = exampleLib
         and ?s1.0 = ?d] lib start md pd
  have r3: "mes (chat (snd (restoreMessage 0 ?d)) ! 0) = ''[kaomoji:happy]'' \<and>
            display (chat (snd (restoreMessage 0 ?d)) ! 0) = None \<and>
            backup (chat (snd (restoreMessage 0 ?d)) ! 0) = None \<and>
            fst (restoreMessage 0 ?d)"
    by (auto simp: chat_at_def split: if_splits)
  from restoreMessage_inverse[where s = exampleState and messageId = 0] start
  have r0: "restoreMessage 0 exampleState = (False, exampleState)" by blast
  from restoreMessage_inverse[where s = exampleState and messageId = 7] h7
  have r7: "restoreMessage 7 exampleState = (False, exampleState)" by blast
  from r1 r2 r3 r0 r7 show ?thesis by blast
qed

text \<open>
  The claim as stated, an inverse of the modification without condition, fails when
  \<^verbatim>\<open>modifyMode\<close> changes between the rewrite and the restore, and when the message had a
  \<^verbatim>\<open>display_text\<close> before a rewrite in \<^verbatim>\<open>display\<close> mode. A message rewritten in
  \<^verbatim>\<open>content\<close> mode and restored in \<^verbatim>\<open>display\<close> mode keeps the rewritten text and loses
  the backup; a message with the \<^verbatim>\<open>display_text\<close> \<^verbatim>\<open>translated\<close> has none after rewrite
  and restore.
\<close>

theorem restoreMessage_inverse_counterexample:
  "mes (chat contentModeState ! 0) = ''[kaomoji:happy]'' \<and>
   fst (restoreMessage 0 modeSwitchedState) \<and>
   mes (chat (snd (restoreMessage 0 modeSwitchedState)) ! 0) = ''(^_^)'' \<and>
   backup (chat (snd (restoreMessage 0 modeSwitchedState)) ! 0) = None \<and>
   display (chat translatedState ! 0) = Some ''translated'' \<and>
   fst (processMessage exampleLib 0 translatedState) \<and>
   fst (restoreMessage 0 (snd (processMessage exampleLib 0 translatedState))) \<and>
   display (chat (snd (restoreMessage 0 (snd (processMessage exampleLib 0 translatedState)))) ! 0) =
     None"
  by (simp add: modeSwitchedState_def translatedState_def contentModeState_def exampleState_def
        exampleMessage_def exampleLib_def defaultSettings_def replaceOptionsOf_def
        processMessage_def modifyMessageDisplay_def modifyMessageContent_def restoreMessage_def
        chat_at_def backup_def display_def Let_def)

subsection \<open>When a message is processed\<close>

text \<open>
  C10. \<^verbatim>\<open>processMessage\<close> returns false and leaves everything unchanged when the
  message is missing, when it is a system message, when it is a user message and
  \<^verbatim>\<open>processUserMessages\<close> is off, when it is an AI message and \<^verbatim>\<open>processAIMessages\<close> is
  off, and when the result of \<^verbatim>\<open>replaceText\<close> has \<^verbatim>\<open>hasReplacements\<close> false or
  \<^verbatim>\<open>successCount\<close> 0. The state changes exactly when true is returned, and then none of
  these conditions holds and the new state is that of the modify function chosen by
  \<^verbatim>\<open>modifyMode\<close>, applied to the rewritten text.
\<close>

theorem processMessage_frame:
  "(chat_at s messageId = None \<longrightarrow> processMessage lib messageId s = (False, s)) \<and>
   (chat_at s messageId = Some message \<and> is_system message \<longrightarrow>
      processMessage lib messageId s = (False, s)) \<and>
   (chat_at s messageId = Some message \<and> is_user message \<and>
      \<not> processUserMessages (extension_settings s) \<longrightarrow>
      processMessage lib messageId s = (False, s)) \<and>
   (chat_at s messageId = Some message \<and> \<not> is_user message \<and>
      \<not> processAIMessages (extension_settings s) \<longrightarrow>
      processMessage lib messageId s = (False, s)) \<and>
   (chat_at s messageId = Some message \<and> replacer s = Some r \<and>
      (\<not> hasReplacements
           (lib_replaceText lib r (mes message) (replaceOptionsOf (extension_settings s))) \<or>
       successCount
         (lib_replaceText lib r (mes message) (replaceOptionsOf (extension_settings s))) = 0) \<longrightarrow>
      processMessage lib messageId s = (False, s)) \<and>
   (processMessage lib messageId s = (b, s') \<longrightarrow> (s' \<noteq> s) = b) \<and>
   (processMessage lib messageId s = (True, s') \<longrightarrow>
      (\<exists>message r. chat_at s messageId = Some message \<and> \<not> is_system message \<and>
           (if is_user message then processUserMessages (extension_settings s)
            else processAIMessages (extension_settings s)) \<and>
           replacer s = Some r \<and>
           hasReplacements
             (lib_replaceText lib r (mes message) (replaceOptionsOf (extension_settings s))) \<and>
           successCount
             (lib_replaceText lib r (mes message) (replaceOptionsOf (extension_settings s))) \<noteq> 0 \<and>
           s' = snd ((if modifyMode (extension_settings s) = ''display''
                      then modifyMessageDisplay else modifyMessageContent)
                     messageId
                     (result_text
                        (lib_replaceText lib r (mes message) (replaceOptionsOf (extension_settings s))))
                     (mes message) s)))"
proof -
  have guards:
    "chat_at s messageId = None \<longrightarrow> processMessage lib messageId s = (False, s)"
    "chat_at s messageId = Some message \<and> is_system message \<longrightarrow>
       processMessage lib messageId s = (False, s)"
    "chat_at s messageId = Some message \<and> is_user message \<and>
       \<not> processUserMessages (extension_settings s) \<longrightarrow>
       processMessage lib messageId s = (False, s)"
    "chat_at s messageId = Some message \<and> \<not> is_user message \<and>
       \<not> processAIMessages (extension_settings s) \<longrightarrow>
       processMessage lib messageId s = (False, s)"
    "chat_at s messageId = Some message \<and> replacer s = Some r \<and>
       (\<not> hasReplacements
            (lib_replaceText lib r (mes message) (replaceOptionsOf (extension_settings s))) \<or>
        successCount
          (lib_replaceText lib r (mes message) (replaceOptionsOf (extension_settings s))) = 0) \<longrightarrow>
       processMessage lib messageId s = (False, s)"
    by (auto simp: processMessage_def Let_def)
  from guards processMessage_changed_iff[of lib messageId s b s']
    processMessage_True[of lib messageId s s']
  show ?thesis by blast
qed

theorem processMessage_frame_witness:
  "processMessage exampleLib 3 exampleState = (False, exampleState) \<and>
   processMessage exampleLib 0 (exampleState\<lparr>chat := [exampleMessage\<lparr>is_system := True\<rparr>]\<rparr>) =
     (False, exampleState\<lparr>chat := [exampleMessage\<lparr>is_system := True\<rparr>]\<rparr>) \<and>
   processMessage exampleLib 0 (exampleState\<lparr>chat := [exampleMessage\<lparr>is_user := True\<rparr>]\<rparr>) =
     (False, exampleState\<lparr>chat := [exampleMessage\<lparr>is_user := True\<rparr>]\<rparr>) \<and>
   processMessage exampleLib 0
       (exampleState\<lparr>extension_settings := defaultSettings\<lparr>processAIMessages := False\<rparr>\<rparr>) =
     (False, exampleState\<lparr>extension_settings := defaultSettings\<lparr>processAIMessages := False\<rparr>\<rparr>) \<and>
   processMessage exampleLib 0 emptyTextState = (False, emptyTextState) \<and>
   fst (processMessage exampleLib 0 exampleState) \<and>
   snd (processMessage exampleLib 0 exampleState) \<noteq> exampleState \<and>
   snd (processMessage exampleLib 0 exampleState) =
     snd (modifyMessageDisplay 0 ''(^_^)'' ''[kaomoji:happy]'' exampleState)"
proof -
  let ?sys = "exampleState\<lparr>chat := [exampleMessage\<lparr>is_system := True\<rparr>]\<rparr>"
  let ?usr = "exampleState\<lparr>chat := [exampleMessage\<lparr>is_user := True\<rparr>]\<rparr>"
  let ?off = "exampleState\<lparr>extension_settings := defaultSettings\<lparr>processAIMessages := False\<rparr>\<rparr>"
  have 1: "processMessage exampleLib 3 exampleState = (False, exampleState)"
    using processMessage_frame[of exampleState 3 exampleLib]
    by (simp add: chat_at_def exampleState_def)
  have 2: "processMessage exampleLib 0 ?sys = (False, ?sys)"
    using processMessage_frame[of ?sys 0 exampleLib "exampleMessage\<lparr>is_system := True\<rparr>"]
    by (simp add: chat_at_def exampleState_def)
  have 3: "processMessage exampleLib 0 ?usr = (False, ?usr)"
    using processMessage_frame[of ?usr 0 exampleLib "exampleMessage\<lparr>is_user := True\<rparr>"]
    by (simp add: chat_at_def exampleState_def defaultSettings_def)
  have 4: "processMessage exampleLib 0 ?off = (False, ?off)"
    using processMessage_frame[of ?off 0 exampleLib exampleMessage]
    by (simp add: chat_at_def exampleState_def exampleMessage_def)
  have 5: "processMessage exampleLib 0 emptyTextState = (False, emptyTextState)"
    using processMessage_frame[of emptyTextState 0 exampleLib emptyMessage "[''(^_^)'']"]
    by (simp add: chat_at_def emptyTextState_def emptyMessage_def exampleLib_def)
  have t: "processMessage exampleLib 0 exampleState =
             (True, snd (processMessage exampleLib 0 exampleState))"
    by (simp add: processMessage_def modifyMessageDisplay_def chat_at_def exampleState_def
          exampleMessage_def exampleLib_def defaultSettings_def replaceOptionsOf_def Let_def)
  have 6: "fst (processMessage exampleLib 0 exampleState)"
    using t by (metis fst_conv)
  have 7: "snd (processMessage exampleLib 0 exampleState) \<noteq> exampleState"
    using processMessage_frame[of exampleState 0 exampleLib _ _ True
            "snd (processMessage exampleLib 0 exampleState)"] t
    by blast
  have "chat_at exampleState 0 = Some exampleMessage" "replacer exampleState = Some [''(^_^)'']"
    by (simp_all add: chat_at_def exampleState_def)
  with processMessage_frame[of exampleState 0 exampleLib _ _ True
            "snd (processMessage exampleLib 0 exampleState)"] t
  have 8: "snd (processMessage exampleLib 0 exampleState) =
             snd (modifyMessageDisplay 0 ''(^_^)'' ''[kaomoji:happy]'' exampleState)"
    by (auto simp: exampleState_def exampleMessage_def exampleLib_def defaultSettings_def
          replaceOptionsOf_def)
  from 1 2 3 4 5 6 7 8 show ?thesis by blast
qed

section \<open>Properties of the library as specified\<close>

subsection \<open>Auxiliary facts about search\<close>

lemma candidatesFrom_unmatched:
  assumes "\<forall>e\<in>set es. fuzzyScore eng e q \<le> threshold eng"
  shows "candidatesFrom eng None q i es = []"
  using assms by (induction es arbitrary: i) auto

lemma search_empty_store: "search eng [] query = []"
  by (simp add: search_def)

lemma processToken_not_found:
  assumes "search eng store (normalizeQuery eng (rawKeyword t)) = []"
  shows "processToken eng store opts t =
           (if keepOriginalOnNotFound opts then originalText t
            else if markNotFound opts then ''[?'' @ rawKeyword t @ '']'' else [],
            \<lparr>rawKeyword = rawKeyword t,
             outcome = (if keepOriginalOnNotFound opts then notFoundKept
                        else if markNotFound opts then notFoundMarked else notFoundRemoved),
             chosenKaomoji = None\<rparr>)"
  using assms by (simp add: processToken_def)

lemma coreStep_keeps_store:
  assumes "\<not> isLoad c"
  shows "dataStore (snd (coreStep c r)) = dataStore r \<and> searchEngine (snd (coreStep c r)) = searchEngine r"
  using assms by (cases c) simp_all

lemma coreRun_keeps_store:
  assumes "\<forall>c\<in>set cs. \<not> isLoad c"
  shows "dataStore (coreRun cs r) = dataStore r \<and> searchEngine (coreRun cs r) = searchEngine r"
  using assms by (induction cs arbitrary: r) (simp_all add: coreStep_keeps_store)

text \<open>The specified \<^verbatim>\<open>replaceText\<close> reports no success on the empty text, which is what
  the extension relies on.\<close>

lemma replaceText_empty_text:
  "\<not> hasReplacements (replaceText eng store [] opts) \<and>
   successCount (replaceText eng store [] opts) = 0"
  by (simp add: replaceText_def scan_def)

subsection \<open>Auxiliary facts about sorting and deduplication\<close>

lemma kindRank_eq: "kindRank k = kindRank k' \<longleftrightarrow> k = k'"
  by (cases k; cases k') simp_all

lemma candidatesFrom_index:
  assumes "c \<in> set (candidatesFrom eng hit q i es)"
  shows "i \<le> entryIndex c \<and> entryIndex c < i + length es \<and> entry c = es ! (entryIndex c - i)"
  using assms
proof (induction es arbitrary: i)
  case Nil
  then show ?case by simp
next
  case (Cons e es)
  from Cons.prems consider
      "c = \<lparr>entryIndex = i, entry = e, score = 1, matchKind = Exact\<rparr>"
    | "c = \<lparr>entryIndex = i, entry = e, score = fuzzyScore eng e q, matchKind = Fuzzy\<rparr>"
    | "c \<in> set (candidatesFrom eng hit q (Suc i) es)"
    by (auto split: if_splits)
  then show ?case
  proof cases
    case 3
    from Cons.IH[OF 3] show ?thesis by (auto simp: nth_Cons')
  qed simp_all
qed

text \<open>What a candidate is: the exact candidate of the entry that the query's key
  resolves to, with score 1, or the fuzzy candidate of an entry whose fuzzy score exceeds
  the threshold, with that score.\<close>

lemma candidatesFrom_kind:
  assumes "c \<in> set (candidatesFrom eng hit q i es)"
  shows "(matchKind c = Exact \<and> score c = 1 \<and> hit = Some (entryIndex c)) \<or>
         (matchKind c = Fuzzy \<and> score c = fuzzyScore eng (entry c) q \<and> threshold eng < score c)"
  using assms
  by (induction es arbitrary: i) (auto split: if_splits)

lemma candidatesFrom_in_order:
  "sorted_wrt (\<lambda>a b. entryIndex a \<le> entryIndex b) (candidatesFrom eng hit q i es)"
proof (induction es arbitrary: i)
  case Nil
  show ?case by simp
next
  case (Cons e es)
  have later: "i \<le> entryIndex c"
    if "c \<in> set (candidatesFrom eng hit q (Suc i) es)" for c
    using candidatesFrom_index[OF that] by simp
  show ?case
    using Cons.IH[of "Suc i"] later
    by (auto simp: sorted_wrt_append)
qed

lemma candidatesFrom_exact:
  assumes "hit = Some j" and "i \<le> j" and "j < i + length es"
  shows "\<exists>c\<in>set (candidatesFrom eng hit q i es). entryIndex c = j \<and> matchKind c = Exact"
  using assms
proof (induction es arbitrary: i)
  case Nil
  then show ?case by simp
next
  case (Cons e es)
  show ?case
  proof (cases "i = j")
    case True
    with Cons.prems show ?thesis by simp
  next
    case False
    with Cons.prems have "Suc i \<le> j" "j < Suc i + length es" by simp_all
    from Cons.IH[OF Cons.prems(1) this] show ?thesis by auto
  qed
qed

lemma lookupFrom_range:
  assumes "lookupFrom eng i es k = Some j"
  shows "i \<le> j \<and> j < i + length es"
  using assms
  by (induction es arbitrary: i) (fastforce split: if_splits)+

lemma fold_max_le:
  fixes b :: real
  assumes "\<forall>x\<in>set xs. x \<le> b" and "a \<le> b"
  shows "fold max xs a \<le> b"
  using assms by (induction xs arbitrary: a) simp_all

lemma fuzzyScore_le:
  assumes "\<forall>a b. similarity eng a b \<le> 1"
  shows "fuzzyScore eng e q \<le> 1"
  unfolding fuzzyScore_def using assms by (intro fold_max_le) auto

text \<open>A stable sort by a key turns a list that is in order with respect to \<open>P\<close> into
  one that is in order with respect to the key first and \<open>P\<close> second.\<close>

lemma insort_key_lex:
  fixes f :: "'a \<Rightarrow> 'k::linorder"
  assumes "sorted_wrt (\<lambda>a b. f a < f b \<or> (f a = f b \<and> P a b)) xs"
    and "\<forall>z\<in>set xs. P c z"
  shows "sorted_wrt (\<lambda>a b. f a < f b \<or> (f a = f b \<and> P a b)) (insort_key f c xs)"
  using assms
proof (induction xs)
  case Nil
  then show ?case by simp
next
  case (Cons y ys)
  show ?case
  proof (cases "f c \<le> f y")
    case True
    with Cons.prems show ?thesis by (auto simp: less_le)
  next
    case False
    with Cons.prems Cons.IH show ?thesis by (auto simp: set_insort_key)
  qed
qed

lemma sort_key_lex:
  fixes f :: "'a \<Rightarrow> 'k::linorder"
  assumes "sorted_wrt P cs"
  shows "sorted_wrt (\<lambda>a b. f a < f b \<or> (f a = f b \<and> P a b)) (sort_key f cs)"
  using assms
proof (induction cs)
  case Nil
  show ?case by simp
next
  case (Cons c cs)
  then show ?case
    by (simp add: insort_key_lex)
qed

lemma dedupe_member:
  assumes "d \<in> set (dedupe seen xs)"
  shows "d \<in> set xs \<and> entryIndex d \<notin> set seen"
  using assms
proof (induction xs arbitrary: seen)
  case Nil
  then show ?case by simp
next
  case (Cons x xs)
  show ?case
  proof (cases "entryIndex x \<in> set seen")
    case True
    with Cons.prems Cons.IH[of seen] show ?thesis by simp
  next
    case False
    with Cons.prems Cons.IH[of "entryIndex x # seen"] show ?thesis by auto
  qed
qed

lemma dedupe_distinct: "distinct (map entryIndex (dedupe seen xs))"
proof (induction xs arbitrary: seen)
  case Nil
  show ?case by simp
next
  case (Cons x xs)
  have "entryIndex x \<notin> entryIndex ` set (dedupe (entryIndex x # seen) xs)"
    using dedupe_member[of _ "entryIndex x # seen" xs] by fastforce
  with Cons.IH show ?case by simp
qed

lemma dedupe_indices:
  "entryIndex ` set (dedupe seen xs) = entryIndex ` set xs - set seen"
proof (induction xs arbitrary: seen)
  case Nil
  show ?case by simp
next
  case (Cons x xs)
  show ?case
    using Cons.IH[of seen] Cons.IH[of "entryIndex x # seen"] by auto
qed

lemma dedupe_sorted:
  assumes "sorted_wrt R xs"
  shows "sorted_wrt (\<lambda>a b. R a b \<and> entryIndex a \<noteq> entryIndex b) (dedupe seen xs)"
  using assms
proof (induction xs arbitrary: seen)
  case Nil
  show ?case by simp
next
  case (Cons x xs)
  show ?case
  proof (cases "entryIndex x \<in> set seen")
    case True
    with Cons show ?thesis by simp
  next
    case False
    have "R x d \<and> entryIndex x \<noteq> entryIndex d"
      if "d \<in> set (dedupe (entryIndex x # seen) xs)" for d
      using dedupe_member[OF that] Cons.prems by auto
    with False Cons show ?thesis by simp
  qed
qed

text \<open>Of the candidates of one entry, deduplication keeps the one that comes first.\<close>

lemma dedupe_first:
  assumes "sorted_wrt R xs"
    and "c \<in> set (dedupe seen xs)" and "d \<in> set xs" and "entryIndex d = entryIndex c"
  shows "d = c \<or> R c d"
  using assms
proof (induction xs arbitrary: seen)
  case Nil
  then show ?case by simp
next
  case (Cons x xs)
  show ?case
  proof (cases "entryIndex x \<in> set seen")
    case True
    with Cons.prems have c: "c \<in> set (dedupe seen xs)" by simp
    from dedupe_member[OF c] True Cons.prems(3,4) have "d \<in> set xs" by auto
    with Cons.IH[OF _ c] Cons.prems show ?thesis by simp
  next
    case False
    with Cons.prems consider "c = x" | "c \<in> set (dedupe (entryIndex x # seen) xs)"
      by auto
    then show ?thesis
    proof cases
      case 1
      with Cons.prems show ?thesis by auto
    next
      case 2
      from dedupe_member[OF 2] Cons.prems(3,4) have "d \<in> set xs" by auto
      with Cons.IH[OF _ 2] Cons.prems show ?thesis by simp
    qed
  qed
qed

text \<open>The facts about \<^verbatim>\<open>search\<close> from which its properties follow: what it returns
  is the deduplicated list of candidates, sorted by match kind, then by descending score,
  then by position in the store.\<close>

lemma search_facts:
  fixes eng store query cands
  defines "cands \<equiv> candidatesFrom eng (lookupExact eng store query)
                      (normalizeQuery eng query) 0 store"
  shows "sorted_wrt (\<lambda>a b. (kindRank (matchKind a) < kindRank (matchKind b) \<or>
                            (kindRank (matchKind a) = kindRank (matchKind b) \<and>
                             (score b < score a \<or>
                              (score a = score b \<and> entryIndex a \<le> entryIndex b)))) \<and>
                           entryIndex a \<noteq> entryIndex b)
           (search eng store query)"
    and "distinct (map entryIndex (search eng store query))"
    and "set (search eng store query) \<subseteq> set cands"
    and "entryIndex ` set (search eng store query) = entryIndex ` set cands"
    and "\<And>c d. c \<in> set (search eng store query) \<Longrightarrow> d \<in> set cands \<Longrightarrow>
           entryIndex d = entryIndex c \<Longrightarrow>
           d = c \<or> kindRank (matchKind c) < kindRank (matchKind d)"
proof -
  let ?q = "normalizeQuery eng query"
  let ?byScore = "sort_key (\<lambda>c. - score c) cands"
  let ?sorted = "sort_key (\<lambda>c. kindRank (matchKind c)) ?byScore"
  let ?P = "\<lambda>a b. - score a < - score b \<or> (- score a = - score b \<and> entryIndex a \<le> entryIndex b)"
  let ?L = "\<lambda>a b. kindRank (matchKind a) < kindRank (matchKind b) \<or>
                   (kindRank (matchKind a) = kindRank (matchKind b) \<and> ?P a b)"
  let ?L' = "\<lambda>a b. kindRank (matchKind a) < kindRank (matchKind b) \<or>
                    (kindRank (matchKind a) = kindRank (matchKind b) \<and>
                     (score b < score a \<or> (score a = score b \<and> entryIndex a \<le> entryIndex b)))"
  have s: "search eng store query = dedupe [] ?sorted"
    by (simp add: search_def Let_def cands_def lookupExact_def)
  have "sorted_wrt (\<lambda>a b. entryIndex a \<le> entryIndex b) cands"
    unfolding cands_def by (rule candidatesFrom_in_order)
  then have "sorted_wrt ?P ?byScore"
    by (rule sort_key_lex)
  then have "sorted_wrt ?L ?sorted"
    by (rule sort_key_lex)
  then have L: "sorted_wrt ?L' ?sorted"
    by (rule sorted_wrt_mono_rel[rotated]) auto
  show "sorted_wrt (\<lambda>a b. ?L' a b \<and> entryIndex a \<noteq> entryIndex b) (search eng store query)"
    unfolding s by (rule dedupe_sorted) (rule L)
  show "distinct (map entryIndex (search eng store query))"
    unfolding s by (rule dedupe_distinct)
  show sub: "set (search eng store query) \<subseteq> set cands"
    unfolding s using dedupe_member[of _ "[]" ?sorted] by auto
  show "entryIndex ` set (search eng store query) = entryIndex ` set cands"
    unfolding s by (simp add: dedupe_indices)
  show "d = c \<or> kindRank (matchKind c) < kindRank (matchKind d)"
    if c: "c \<in> set (search eng store query)" and d: "d \<in> set cands"
      and same: "entryIndex d = entryIndex c" for c d
  proof -
    from c sub have c': "c \<in> set cands" by blast
    from dedupe_first[OF L c[unfolded s] _ same] d
    consider "d = c" | "?L' c d" by auto
    then show ?thesis
    proof cases
      case 1
      then show ?thesis by simp
    next
      case 2
      show ?thesis
      proof (cases "kindRank (matchKind c) < kindRank (matchKind d)")
        case True
        then show ?thesis by simp
      next
        case False
        with 2 have k: "matchKind c = matchKind d"
          by (auto simp: kindRank_eq)
        from candidatesFrom_index[OF c'[unfolded cands_def]]
             candidatesFrom_index[OF d[unfolded cands_def]] same
        have e: "entry c = entry d" by simp
        from candidatesFrom_kind[OF c'[unfolded cands_def]]
             candidatesFrom_kind[OF d[unfolded cands_def]] k e
        have "score c = score d" by auto
        with k e same have "d = c"
          by (intro MatchCandidate.equality) simp_all
        then show ?thesis by simp
      qed
    qed
  qed
qed

subsection \<open>Auxiliary facts about scanning and rebuilding the text\<close>

lemma scanFrom_Cons:
  "scanFrom off (c # cs) =
     (if take 9 (c # cs) = tokenOpen \<and>
         length (takeWhile (\<lambda>x. x \<noteq> CHR '']'') (drop 9 (c # cs))) < length (drop 9 (c # cs))
      then
        \<lparr> rawKeyword = takeWhile (\<lambda>x. x \<noteq> CHR '']'') (drop 9 (c # cs)), startOffset = off,
          endOffset = off + 10 + length (takeWhile (\<lambda>x. x \<noteq> CHR '']'') (drop 9 (c # cs))),
          originalText =
            take (10 + length (takeWhile (\<lambda>x. x \<noteq> CHR '']'') (drop 9 (c # cs)))) (c # cs) \<rparr> #
        scanFrom (off + 10 + length (takeWhile (\<lambda>x. x \<noteq> CHR '']'') (drop 9 (c # cs))))
          (drop (10 + length (takeWhile (\<lambda>x. x \<noteq> CHR '']'') (drop 9 (c # cs)))) (c # cs))
      else scanFrom (Suc off) cs)"
  by (simp only: scanFrom.simps Let_def)

lemma token_text:
  assumes "take 9 s = tokenOpen"
    and "length (takeWhile (\<lambda>x. x \<noteq> CHR '']'') (drop 9 s)) < length (drop 9 s)"
  shows "take (10 + length (takeWhile (\<lambda>x. x \<noteq> CHR '']'') (drop 9 s))) s =
           tokenOpen @ takeWhile (\<lambda>x. x \<noteq> CHR '']'') (drop 9 s) @ '']''"
    and "10 + length (takeWhile (\<lambda>x. x \<noteq> CHR '']'') (drop 9 s)) \<le> length s"
proof -
  let ?rest = "drop 9 s"
  let ?kw = "takeWhile (\<lambda>x. x \<noteq> CHR '']'') ?rest"
  have close: "?rest ! length ?kw = CHR '']''"
    using nth_length_takeWhile[OF assms(2)] by simp
  have "take (Suc (length ?kw)) ?rest = take (length ?kw) ?rest @ [?rest ! length ?kw]"
    using assms(2) by (rule take_Suc_conv_app_nth)
  also have "take (length ?kw) ?rest = ?kw"
    by (rule takeWhile_eq_take[symmetric])
  finally have rest: "take (Suc (length ?kw)) ?rest = ?kw @ '']''"
    using close by simp
  have "take (9 + Suc (length ?kw)) s = take 9 s @ take (Suc (length ?kw)) ?rest"
    by (rule take_add)
  with rest assms(1) show "take (10 + length ?kw) s = tokenOpen @ ?kw @ '']''"
    by simp
  from assms(2) show "10 + length ?kw \<le> length s"
    by simp
qed

lemma scanFrom_token:
  assumes "t \<in> set (scanFrom off s)"
  shows "off \<le> startOffset t \<and>
         endOffset t = startOffset t + 10 + length (rawKeyword t) \<and>
         endOffset t \<le> off + length s \<and>
         originalText t = take (10 + length (rawKeyword t)) (drop (startOffset t - off) s) \<and>
         originalText t = tokenOpen @ rawKeyword t @ '']'' \<and>
         CHR '']'' \<notin> set (rawKeyword t)"
  using assms
proof (induction off s arbitrary: t rule: scanFrom.induct)
  case (1 off)
  then show ?case by simp
next
  case (2 off c cs)
  let ?s = "c # cs"
  let ?kw = "takeWhile (\<lambda>x. x \<noteq> CHR '']'') (drop 9 ?s)"
  show ?case
  proof (cases "take 9 ?s = tokenOpen \<and> length ?kw < length (drop 9 ?s)")
    case True
    note tok = token_text[of "?s"]
    from True have len: "10 + length ?kw \<le> length ?s"
      using tok(2) by blast
    have "scanFrom off ?s =
            \<lparr> rawKeyword = ?kw, startOffset = off, endOffset = off + 10 + length ?kw,
              originalText = take (10 + length ?kw) ?s \<rparr> #
            scanFrom (off + 10 + length ?kw) (drop (10 + length ?kw) ?s)"
      by (rule trans[OF scanFrom_Cons if_P[OF True]])
    with "2.prems" consider
        "t = \<lparr> rawKeyword = ?kw, startOffset = off, endOffset = off + 10 + length ?kw,
               originalText = take (10 + length ?kw) ?s \<rparr>"
      | "t \<in> set (scanFrom (off + 10 + length ?kw) (drop (10 + length ?kw) ?s))"
      by (auto simp del: scanFrom.simps)
    then show ?thesis
    proof cases
      case 1
      have "CHR '']'' \<notin> set ?kw"
        using set_takeWhileD by fastforce
      with 1 True tok(1) len show ?thesis by simp
    next
      case 2
      from "2.IH"(1)[OF True refl 2] len show ?thesis
        by (auto simp: add.commute)
    qed
  next
    case False
    have "scanFrom off ?s = scanFrom (Suc off) cs"
      by (rule trans[OF scanFrom_Cons if_not_P[OF False]])
    with "2.prems" have "t \<in> set (scanFrom (Suc off) cs)"
      by (simp del: scanFrom.simps)
    from "2.IH"(2)[OF False this]
    have ih: "Suc off \<le> startOffset t \<and>
         endOffset t = startOffset t + 10 + length (rawKeyword t) \<and>
         endOffset t \<le> Suc off + length cs \<and>
         originalText t = take (10 + length (rawKeyword t)) (drop (startOffset t - Suc off) cs) \<and>
         originalText t = tokenOpen @ rawKeyword t @ '']'' \<and>
         CHR '']'' \<notin> set (rawKeyword t)" .
    then have "Suc off \<le> startOffset t" by blast
    then have "startOffset t - off = Suc (startOffset t - Suc off)"
      by arith
    then have d: "drop (startOffset t - off) (c # cs) = drop (startOffset t - Suc off) cs"
      by simp
    show ?thesis
      unfolding d using ih by auto
  qed
qed

lemma scanFrom_in_order:
  "sorted_wrt (\<lambda>a b. endOffset a \<le> startOffset b) (scanFrom off s)"
proof (induction off s rule: scanFrom.induct)
  case (1 off)
  show ?case by simp
next
  case (2 off c cs)
  let ?s = "c # cs"
  let ?kw = "takeWhile (\<lambda>x. x \<noteq> CHR '']'') (drop 9 ?s)"
  show ?case
  proof (cases "take 9 ?s = tokenOpen \<and> length ?kw < length (drop 9 ?s)")
    case True
    have "off + 10 + length ?kw \<le> startOffset t"
      if "t \<in> set (scanFrom (off + 10 + length ?kw) (drop (10 + length ?kw) ?s))" for t
      using scanFrom_token[OF that] by simp
    moreover have "scanFrom off ?s =
            \<lparr> rawKeyword = ?kw, startOffset = off, endOffset = off + 10 + length ?kw,
              originalText = take (10 + length ?kw) ?s \<rparr> #
            scanFrom (off + 10 + length ?kw) (drop (10 + length ?kw) ?s)"
      by (rule trans[OF scanFrom_Cons if_P[OF True]])
    ultimately show ?thesis
      using "2.IH"(1)[OF True refl] by (simp del: scanFrom.simps)
  next
    case False
    have "scanFrom off ?s = scanFrom (Suc off) cs"
      by (rule trans[OF scanFrom_Cons if_not_P[OF False]])
    with "2.IH"(2)[OF False] show ?thesis
      by (simp del: scanFrom.simps)
  qed
qed

lemma applyReplacements_split:
  assumes "\<forall>p\<in>set xs. startOffset (fst p) \<le> startOffset t"
  shows "applyReplacements txt pos (xs @ (t, r) # ys) =
           applyReplacements (take (startOffset t) txt) pos xs @ r @
           applyReplacements txt (endOffset t) ys"
  using assms
proof (induction xs arbitrary: pos)
  case Nil
  show ?case by (simp add: drop_take)
next
  case (Cons p xs)
  obtain t' r' where p: "p = (t', r')" by (cases p)
  with Cons.prems have le: "startOffset t' \<le> startOffset t" by simp
  have "take (startOffset t' - pos) (drop pos (take (startOffset t) txt)) =
        take (startOffset t' - pos) (drop pos txt)"
    using le by (simp add: drop_take min_def)
  with Cons p show ?case by simp
qed

subsection \<open>The example engine and datasets evaluated\<close>

lemma scan_example:
  "scan ''a[kaomoji:sad]b'' =
     [\<lparr>rawKeyword = ''sad'', startOffset = 1, endOffset = 14, originalText = ''[kaomoji:sad]''\<rparr>]"
  by (simp add: scan_def tokenOpen_def)

lemma normalizeQuery_example:
  "normalizeQuery exampleEngine ''sad'' = ''sad''"
  "normalizeQuery exampleEngine ''happy'' = ''happy''"
  "normalizeQuery exampleEngine ''Happy'' = ''happy''"
  "normalizeQuery exampleEngine ''joy'' = ''joy''"
  "normalizeQuery exampleEngine ''hap'' = ''hap''"
  "normalizeQuery exampleEngine ''glad'' = ''glad''"
  "normalizeQuery exampleEngine ''happy days'' = ''happydays''"
  by (simp_all add: exampleEngine_def foldCase_def)

lemma similarity_example:
  "similarity exampleEngine ''sad'' ''happy'' = 0"
  "similarity exampleEngine ''happy'' ''happy'' = 1"
  "similarity exampleEngine ''happy'' ''hap'' = 1 / 2"
  "similarity exampleEngine ''happy'' ''joy'' = 0"
  "similarity exampleEngine ''happy'' ''glad'' = 0"
  "similarity exampleEngine ''happy'' ''happydays'' = 1 / 2"
  "similarity exampleEngine ''happy'' ''sad'' = 0"
  "threshold exampleEngine = 3 / 10"
  by (simp_all add: exampleEngine_def)

lemma search_sad: "search exampleEngine exampleStore ''sad'' = []"
  by (simp add: search_def exampleStore_def keysOf_def fuzzyScore_def normalizeQuery_example
        similarity_example)

lemma search_ranked:
  "search exampleEngine rankedStore ''Happy'' =
     [\<lparr>entryIndex = 1, entry = rankedStore ! 1, score = 1, matchKind = Exact\<rparr>,
      \<lparr>entryIndex = 0, entry = rankedStore ! 0, score = 1 / 2, matchKind = Fuzzy\<rparr>,
      \<lparr>entryIndex = 2, entry = rankedStore ! 2, score = 1 / 2, matchKind = Fuzzy\<rparr>]"
  by (simp add: search_def rankedStore_def keysOf_def fuzzyScore_def normalizeQuery_example
        similarity_example)

text \<open>The examples of section 8 of the specification.\<close>

lemma scan_spec_example:
  "scan ''hi [kaomoji:happy] there'' =
     [\<lparr>rawKeyword = ''happy'', startOffset = 3, endOffset = 18,
       originalText = ''[kaomoji:happy]''\<rparr>]"
  "scan ''[kaomoji:sad]'' =
     [\<lparr>rawKeyword = ''sad'', startOffset = 0, endOffset = 13, originalText = ''[kaomoji:sad]''\<rparr>]"
  by (simp_all add: scan_def tokenOpen_def)

lemma search_happy:
  "search exampleEngine exampleStore ''happy'' =
     [\<lparr>entryIndex = 0,
       entry = \<lparr>keyword = ''happy'', kaomoji = ''(^_^)'', aliases = [], tags = []\<rparr>,
       score = 1, matchKind = Exact\<rparr>]"
  by (simp add: search_def exampleStore_def keysOf_def fuzzyScore_def normalizeQuery_example
        similarity_example)

lemma replaceText_spec_examples:
  "replaceText exampleEngine exampleStore ''hi [kaomoji:happy] there''
       \<lparr>keepOriginalOnNotFound = True, markNotFound = False, strategy = ''best''\<rparr> =
     \<lparr> result_text = ''hi (^_^) there'', hasReplacements = True, successCount = 1,
       failureCount = 0,
       records = [\<lparr>rawKeyword = ''happy'', outcome = replaced,
                   chosenKaomoji = Some ''(^_^)''\<rparr>] \<rparr>"
  "replaceText exampleEngine exampleStore ''[kaomoji:sad]''
       \<lparr>keepOriginalOnNotFound = True, markNotFound = False, strategy = ''best''\<rparr> =
     \<lparr> result_text = ''[kaomoji:sad]'', hasReplacements = True, successCount = 0,
       failureCount = 1,
       records = [\<lparr>rawKeyword = ''sad'', outcome = notFoundKept, chosenKaomoji = None\<rparr>] \<rparr>"
  "replaceText exampleEngine exampleStore ''[kaomoji:sad]''
       \<lparr>keepOriginalOnNotFound = False, markNotFound = True, strategy = ''best''\<rparr> =
     \<lparr> result_text = ''[?sad]'', hasReplacements = True, successCount = 0,
       failureCount = 1,
       records = [\<lparr>rawKeyword = ''sad'', outcome = notFoundMarked, chosenKaomoji = None\<rparr>] \<rparr>"
  by (simp_all add: replaceText_def processToken_def scan_spec_example normalizeQuery_example
        search_happy search_sad)

subsection \<open>Tokens that match nothing\<close>

text \<open>
  C1. Let \<open>t\<close> be the \<open>i\<close>-th token of the text and let the search for its keyword
  return no candidate. Then the \<open>i\<close>-th record has the token's raw keyword, no kaomoji
  and the outcome \<^verbatim>\<open>notFoundKept\<close> if \<^verbatim>\<open>keepOriginalOnNotFound\<close> is set, else
  \<^verbatim>\<open>notFoundMarked\<close> if \<^verbatim>\<open>markNotFound\<close> is set, else \<^verbatim>\<open>notFoundRemoved\<close>. The output is
  the output for the text before the token, followed by the piece that stands for the
  token, followed by the output for the text after it, where the piece is the token's
  own substring \<^verbatim>\<open>[kaomoji:keyword]\<close> of the text, the marker \<^verbatim>\<open>[?keyword]\<close>, or
  nothing, respectively. With both options off the output is shorter than with the token
  left in place by exactly the token's span, and for a text whose only token it is, shorter
  than the text by exactly the span.
\<close>

theorem replaceText_not_found:
  fixes eng store str opts i
    and t :: Token and pieces :: "(Token \<times> string) list" and pre post :: string
  defines "t \<equiv> scan str ! i"
    and "pieces \<equiv> zip (scan str) (map (\<lambda>t. fst (processToken eng store opts t)) (scan str))"
  defines "pre \<equiv> applyReplacements (take (startOffset t) str) 0 (take i pieces)"
    and "post \<equiv> applyReplacements str (endOffset t) (drop (Suc i) pieces)"
  assumes "i < length (scan str)"
    and "search eng store (normalizeQuery eng (rawKeyword t)) = []"
  shows "records (replaceText eng store str opts) ! i =
           \<lparr>rawKeyword = rawKeyword t,
            outcome = (if keepOriginalOnNotFound opts then notFoundKept
                       else if markNotFound opts then notFoundMarked else notFoundRemoved),
            chosenKaomoji = None\<rparr> \<and>
         result_text (replaceText eng store str opts) =
           pre @
           (if keepOriginalOnNotFound opts then originalText t
            else if markNotFound opts then ''[?'' @ rawKeyword t @ '']'' else []) @
           post \<and>
         originalText t = take (endOffset t - startOffset t) (drop (startOffset t) str) \<and>
         originalText t = ''[kaomoji:'' @ rawKeyword t @ '']'' \<and>
         startOffset t < endOffset t \<and> endOffset t \<le> length str \<and>
         (\<not> keepOriginalOnNotFound opts \<and> \<not> markNotFound opts \<longrightarrow>
            length (result_text (replaceText eng store str opts)) + (endOffset t - startOffset t) =
              length (pre @ originalText t @ post) \<and>
            (length (scan str) = 1 \<longrightarrow>
               length (result_text (replaceText eng store str opts)) + (endOffset t - startOffset t) =
                 length str))"
proof -
  let ?piece = "if keepOriginalOnNotFound opts then originalText t
                else if markNotFound opts then ''[?'' @ rawKeyword t @ '']'' else []"
  have mem: "t \<in> set (scanFrom 0 str)"
    using assms(5) by (simp add: t_def scan_def)
  from scanFrom_token[OF mem]
  have ends: "endOffset t = startOffset t + 10 + length (rawKeyword t)"
    and inside: "endOffset t \<le> length str"
    and sub: "originalText t = take (10 + length (rawKeyword t)) (drop (startOffset t) str)"
    and delims: "originalText t = tokenOpen @ rawKeyword t @ '']''"
    by auto
  have orig: "originalText t = take (endOffset t - startOffset t) (drop (startOffset t) str)"
    using sub by (simp add: ends)
  have shape: "originalText t = ''[kaomoji:'' @ rawKeyword t @ '']''"
    using delims by (simp add: tokenOpen_def)
  have bounds: "startOffset t < endOffset t" "endOffset t \<le> length str"
    using inside by (simp_all add: ends)
  have span: "length (originalText t) = endOffset t - startOffset t"
    by (simp add: shape ends)
  have p: "processToken eng store opts t =
             (?piece,
              \<lparr>rawKeyword = rawKeyword t,
               outcome = (if keepOriginalOnNotFound opts then notFoundKept
                          else if markNotFound opts then notFoundMarked else notFoundRemoved),
               chosenKaomoji = None\<rparr>)"
    by (rule processToken_not_found) (rule assms(6))
  have rec: "records (replaceText eng store str opts) ! i =
           \<lparr>rawKeyword = rawKeyword t,
            outcome = (if keepOriginalOnNotFound opts then notFoundKept
                       else if markNotFound opts then notFoundMarked else notFoundRemoved),
            chosenKaomoji = None\<rparr>"
    using assms(5) p by (simp add: replaceText_def Let_def t_def)
  have len: "i < length pieces"
    using assms(5) by (simp add: pieces_def)
  have nth: "pieces ! i = (t, ?piece)"
    using assms(5) p by (simp add: pieces_def t_def)
  have earlier: "\<forall>q\<in>set (take i pieces). startOffset (fst q) \<le> startOffset t"
  proof
    fix q assume "q \<in> set (take i pieces)"
    then obtain k where k: "k < i" "q = pieces ! k"
      using len by (auto simp: in_set_conv_nth)
    with assms(5) have q: "fst q = scan str ! k"
      by (simp add: pieces_def)
    have "sorted_wrt (\<lambda>a b. endOffset a \<le> startOffset b) (scan str)"
      unfolding scan_def by (rule scanFrom_in_order)
    with k(1) assms(5) have "endOffset (scan str ! k) \<le> startOffset t"
      by (simp add: sorted_wrt_iff_nth_less t_def)
    moreover have "scan str ! k \<in> set (scanFrom 0 str)"
      using k(1) assms(5) by (simp add: scan_def)
    from scanFrom_token[OF this] have "startOffset (scan str ! k) \<le> endOffset (scan str ! k)"
      by auto
    ultimately show "startOffset (fst q) \<le> startOffset t"
      using q by simp
  qed
  have "pieces = take i pieces @ (t, ?piece) # drop (Suc i) pieces"
    using id_take_nth_drop[OF len] nth by simp
  then have "applyReplacements str 0 pieces =
               applyReplacements str 0 (take i pieces @ (t, ?piece) # drop (Suc i) pieces)"
    by simp
  also have "\<dots> = pre @ ?piece @ post"
    unfolding pre_def post_def by (rule applyReplacements_split[OF earlier])
  finally have out: "result_text (replaceText eng store str opts) = pre @ ?piece @ post"
    by (simp add: replaceText_def Let_def pieces_def comp_def)
  have single: "length (result_text (replaceText eng store str opts)) +
                  (endOffset t - startOffset t) = length str"
    if "\<not> keepOriginalOnNotFound opts" "\<not> markNotFound opts" "length (scan str) = 1"
  proof -
    from that(3) assms(5) have "i = 0" by simp
    moreover from that(3) have "length pieces = 1" by (simp add: pieces_def)
    ultimately have "pre = take (startOffset t) str" "post = drop (endOffset t) str"
      by (simp_all add: pre_def post_def)
    with out that(1,2) bounds show ?thesis by simp
  qed
  have shorter: "length (result_text (replaceText eng store str opts)) +
                   (endOffset t - startOffset t) = length (pre @ originalText t @ post)"
    if "\<not> keepOriginalOnNotFound opts" "\<not> markNotFound opts"
    using out that span by simp
  show ?thesis
  proof (intro conjI impI)
    show "records (replaceText eng store str opts) ! i =
           \<lparr>rawKeyword = rawKeyword t,
            outcome = (if keepOriginalOnNotFound opts then notFoundKept
                       else if markNotFound opts then notFoundMarked else notFoundRemoved),
            chosenKaomoji = None\<rparr>"
      by (rule rec)
    show "result_text (replaceText eng store str opts) = pre @ ?piece @ post"
      by (rule out)
    show "originalText t = take (endOffset t - startOffset t) (drop (startOffset t) str)"
      by (rule orig)
    show "originalText t = ''[kaomoji:'' @ rawKeyword t @ '']''"
      by (rule shape)
    show "startOffset t < endOffset t" "endOffset t \<le> length str"
      by (rule bounds)+
  next
    assume "\<not> keepOriginalOnNotFound opts \<and> \<not> markNotFound opts"
    then show "length (result_text (replaceText eng store str opts)) +
                 (endOffset t - startOffset t) = length (pre @ originalText t @ post)"
      using shorter by blast
  next
    assume "\<not> keepOriginalOnNotFound opts \<and> \<not> markNotFound opts" "length (scan str) = 1"
    then show "length (result_text (replaceText eng store str opts)) +
                 (endOffset t - startOffset t) = length str"
      using single by blast
  qed
qed

theorem replaceText_not_found_witness:
  "replaceText exampleEngine exampleStore ''a[kaomoji:sad]b''
       \<lparr>keepOriginalOnNotFound = True, markNotFound = False, strategy = ''best''\<rparr> =
     \<lparr> result_text = ''a[kaomoji:sad]b'', hasReplacements = True, successCount = 0,
       failureCount = 1,
       records = [\<lparr>rawKeyword = ''sad'', outcome = notFoundKept, chosenKaomoji = None\<rparr>] \<rparr> \<and>
   replaceText exampleEngine exampleStore ''a[kaomoji:sad]b''
       \<lparr>keepOriginalOnNotFound = False, markNotFound = True, strategy = ''best''\<rparr> =
     \<lparr> result_text = ''a[?sad]b'', hasReplacements = True, successCount = 0,
       failureCount = 1,
       records = [\<lparr>rawKeyword = ''sad'', outcome = notFoundMarked, chosenKaomoji = None\<rparr>] \<rparr> \<and>
   replaceText exampleEngine exampleStore ''a[kaomoji:sad]b''
       \<lparr>keepOriginalOnNotFound = False, markNotFound = False, strategy = ''best''\<rparr> =
     \<lparr> result_text = ''ab'', hasReplacements = True, successCount = 0,
       failureCount = 1,
       records = [\<lparr>rawKeyword = ''sad'', outcome = notFoundRemoved, chosenKaomoji = None\<rparr>] \<rparr> \<and>
   length ''ab'' + (14 - 1) = length ''a[kaomoji:sad]b''"
proof -
  let ?keep = "\<lparr>keepOriginalOnNotFound = True, markNotFound = False, strategy = ''best''\<rparr>"
  let ?mark = "\<lparr>keepOriginalOnNotFound = False, markNotFound = True, strategy = ''best''\<rparr>"
  let ?drop = "\<lparr>keepOriginalOnNotFound = False, markNotFound = False, strategy = ''best''\<rparr>"
  have i: "0 < length (scan ''a[kaomoji:sad]b'')"
    by (simp add: scan_example)
  have none: "search exampleEngine exampleStore
                (normalizeQuery exampleEngine (rawKeyword (scan ''a[kaomoji:sad]b'' ! 0))) = []"
    by (simp add: scan_example normalizeQuery_example search_sad)
  have rest: "hasReplacements (replaceText exampleEngine exampleStore ''a[kaomoji:sad]b'' opts) \<and>
              successCount (replaceText exampleEngine exampleStore ''a[kaomoji:sad]b'' opts) = 0 \<and>
              failureCount (replaceText exampleEngine exampleStore ''a[kaomoji:sad]b'' opts) = 1 \<and>
              length (records (replaceText exampleEngine exampleStore ''a[kaomoji:sad]b'' opts)) = 1"
    for opts
    by (simp add: replaceText_def scan_example processToken_def normalizeQuery_example search_sad)
  have eq: "r = \<lparr> result_text = x, hasReplacements = True, successCount = 0, failureCount = 1,
                  records = [y] \<rparr>"
    if "hasReplacements r \<and> successCount r = 0 \<and> failureCount r = 1 \<and> length (records r) = 1"
       "records r ! 0 = y" "result_text r = x" for r :: ReplacementResult and x y
    using that by (cases r) (auto simp: length_Suc_conv)
  from replaceText_not_found[OF i none, of ?keep]
  have k: "replaceText exampleEngine exampleStore ''a[kaomoji:sad]b'' ?keep =
     \<lparr> result_text = ''a[kaomoji:sad]b'', hasReplacements = True, successCount = 0,
       failureCount = 1,
       records = [\<lparr>rawKeyword = ''sad'', outcome = notFoundKept, chosenKaomoji = None\<rparr>] \<rparr>"
    by (intro eq rest) (simp_all add: scan_example)
  from replaceText_not_found[OF i none, of ?mark]
  have m: "replaceText exampleEngine exampleStore ''a[kaomoji:sad]b'' ?mark =
     \<lparr> result_text = ''a[?sad]b'', hasReplacements = True, successCount = 0,
       failureCount = 1,
       records = [\<lparr>rawKeyword = ''sad'', outcome = notFoundMarked, chosenKaomoji = None\<rparr>] \<rparr>"
    by (intro eq rest) (simp_all add: scan_example)
  from replaceText_not_found[OF i none, of ?drop]
  have d: "replaceText exampleEngine exampleStore ''a[kaomoji:sad]b'' ?drop =
     \<lparr> result_text = ''ab'', hasReplacements = True, successCount = 0,
       failureCount = 1,
       records = [\<lparr>rawKeyword = ''sad'', outcome = notFoundRemoved, chosenKaomoji = None\<rparr>] \<rparr>"
    by (intro eq rest) (simp_all add: scan_example)
  from k m d show ?thesis by simp
qed

subsection \<open>Text without tokens\<close>

text \<open>
  C2. For every text in which the scanner finds no token, the empty text among them,
  \<^verbatim>\<open>replaceText\<close> returns the text unchanged, \<^verbatim>\<open>hasReplacements\<close> false, both counts 0 and
  no records.
\<close>

theorem replaceText_no_tokens:
  assumes "scan txt = []"
  shows "replaceText eng store txt opts =
           \<lparr> result_text = txt, hasReplacements = False, successCount = 0, failureCount = 0,
             records = [] \<rparr>"
  using assms by (simp add: replaceText_def)

theorem replaceText_no_tokens_witness:
  "scan [] = [] \<and> scan ''no [kaomoji:token'' = [] \<and>
   replaceText exampleEngine exampleStore []
       \<lparr>keepOriginalOnNotFound = False, markNotFound = True, strategy = ''best''\<rparr> =
     \<lparr> result_text = [], hasReplacements = False, successCount = 0, failureCount = 0,
       records = [] \<rparr> \<and>
   replaceText exampleEngine exampleStore ''no [kaomoji:token''
       \<lparr>keepOriginalOnNotFound = False, markNotFound = True, strategy = ''best''\<rparr> =
     \<lparr> result_text = ''no [kaomoji:token'', hasReplacements = False, successCount = 0,
       failureCount = 0, records = [] \<rparr>"
proof -
  have a: "scan [] = []" and b: "scan ''no [kaomoji:token'' = []"
    by (simp_all add: scan_def tokenOpen_def)
  from replaceText_no_tokens[OF a] replaceText_no_tokens[OF b] a b
  show ?thesis by simp
qed

subsection \<open>The order of the candidates\<close>

lemma search_tie:
  "search exampleEngine tieStore ''happy'' =
     [\<lparr>entryIndex = 1,
       entry = \<lparr>keyword = ''happy'', kaomoji = ''(^_^)'', aliases = [], tags = []\<rparr>,
       score = 1, matchKind = Exact\<rparr>,
      \<lparr>entryIndex = 0,
       entry = \<lparr>keyword = ''joy'', kaomoji = ''(^o^)'', aliases = [], tags = [''happy'']\<rparr>,
       score = 1, matchKind = Fuzzy\<rparr>]"
  by (simp add: search_def Let_def tieStore_def keysOf_def fuzzyScore_def
        normalizeQuery_example similarity_example)

lemma exampleEngine_similarity_le: "\<forall>a b. similarity exampleEngine a b \<le> 1"
  by (simp add: exampleEngine_def)

text \<open>The exact match is the first candidate, whatever the fuzzy scores (section 4.2,
  step 2), so that a token with an exact match is replaced by that entry's kaomoji.\<close>

lemma search_exact_first:
  assumes "lookupExact eng store query = Some i"
  shows "search eng store query \<noteq> [] \<and>
         entryIndex (hd (search eng store query)) = i \<and>
         matchKind (hd (search eng store query)) = Exact \<and>
         entry (hd (search eng store query)) = store ! i"
proof -
  let ?cands = "candidatesFrom eng (lookupExact eng store query) (normalizeQuery eng query) 0 store"
  note f = search_facts[where eng = eng and store = store and query = query]
  from assms have "0 \<le> i \<and> i < 0 + length store"
    unfolding lookupExact_def by (rule lookupFrom_range)
  then obtain x where x: "x \<in> set ?cands" "entryIndex x = i" "matchKind x = Exact"
    using candidatesFrom_exact[OF assms, of 0 store eng "normalizeQuery eng query"] by auto
  with f(4) obtain c where c: "c \<in> set (search eng store query)" "entryIndex c = i"
    by (metis (no_types, lifting) image_iff)
  from f(5)[OF c(1) x(1)] x c have exact: "matchKind c = Exact"
    by auto
  from c(1) have ne: "search eng store query \<noteq> []" by auto
  then obtain h t where ht: "search eng store query = h # t"
    by (cases "search eng store query") auto
  have "h = c"
  proof (rule ccontr)
    assume "h \<noteq> c"
    with c(1) ht have "c \<in> set t" by auto
    with f(1) ht have "kindRank (matchKind h) \<le> kindRank (matchKind c)"
      and diff: "entryIndex h \<noteq> entryIndex c"
      by auto
    with exact have "matchKind h = Exact" by (cases "matchKind h") simp_all
    moreover from f(3) ht have "h \<in> set ?cands" by auto
    ultimately have "lookupExact eng store query = Some (entryIndex h)"
      using candidatesFrom_kind by fastforce
    with assms c(2) diff show False by simp
  qed
  with ht c exact f(3) candidatesFrom_index[of c eng _ _ 0 store] show ?thesis
    by auto
qed

lemma replaceText_exact_example:
  "replaceText exampleEngine tieStore ''[kaomoji:happy]''
       \<lparr>keepOriginalOnNotFound = True, markNotFound = False, strategy = ''best''\<rparr> =
     \<lparr> result_text = ''(^_^)'', hasReplacements = True, successCount = 1, failureCount = 0,
       records = [\<lparr>rawKeyword = ''happy'', outcome = replaced,
                   chosenKaomoji = Some ''(^_^)''\<rparr>] \<rparr>"
proof -
  have "scan ''[kaomoji:happy]'' =
          [\<lparr>rawKeyword = ''happy'', startOffset = 0, endOffset = 15,
            originalText = ''[kaomoji:happy]''\<rparr>]"
    by (simp add: scan_def tokenOpen_def)
  then show ?thesis
    by (simp add: replaceText_def processToken_def normalizeQuery_example search_tie)
qed

text \<open>
  C5, as the specified search has it. The exact candidate comes first: section 4.2,
  step 2, lets it outrank every fuzzy candidate whatever the scores. Otherwise the
  candidates are sorted by descending score, candidates with equal scores stand in dataset
  order, and no entry occurs twice; these are the one sortedness statement below (of two
  candidates the earlier has the better match kind, or the same kind and the higher
  score, or the same kind and score and the smaller position in the store). For a
  similarity measure with values up to 1 the whole sequence is sorted by descending
  score. Every returned candidate is one of the candidates found (the exact candidate of
  the entry the query resolves to, with score 1, or the fuzzy candidate of an entry whose
  score exceeds the threshold), every entry with a candidate has one in the result, and
  the candidate kept for an entry is its best: any other candidate of the same entry has a
  worse match kind and, for a similarity up to 1, no higher score.
\<close>

theorem search_sorted_unique:
  "sorted_wrt (\<lambda>a b. kindRank (matchKind a) < kindRank (matchKind b) \<or>
                     (kindRank (matchKind a) = kindRank (matchKind b) \<and>
                      (score b < score a \<or>
                       (score a = score b \<and> entryIndex a < entryIndex b))))
     (search eng store query) \<and>
   distinct (map entryIndex (search eng store query)) \<and>
   set (search eng store query) \<subseteq>
     set (candidatesFrom eng (lookupExact eng store query) (normalizeQuery eng query) 0 store) \<and>
   entryIndex ` set (search eng store query) =
     entryIndex ` set (candidatesFrom eng (lookupExact eng store query)
                         (normalizeQuery eng query) 0 store) \<and>
   (\<forall>c\<in>set (search eng store query).
      entryIndex c < length store \<and> entry c = store ! entryIndex c \<and>
      ((matchKind c = Exact \<and> score c = 1 \<and>
        lookupExact eng store query = Some (entryIndex c)) \<or>
       (matchKind c = Fuzzy \<and>
        score c = fuzzyScore eng (entry c) (normalizeQuery eng query) \<and>
        threshold eng < score c))) \<and>
   (\<forall>c\<in>set (search eng store query).
      \<forall>d\<in>set (candidatesFrom eng (lookupExact eng store query) (normalizeQuery eng query) 0 store).
        entryIndex d = entryIndex c \<longrightarrow>
          d = c \<or> kindRank (matchKind c) < kindRank (matchKind d)) \<and>
   ((\<forall>a b. similarity eng a b \<le> 1) \<longrightarrow>
      sorted_wrt (\<lambda>a b. score b \<le> score a) (search eng store query) \<and>
      (\<forall>c\<in>set (search eng store query).
         \<forall>d\<in>set (candidatesFrom eng (lookupExact eng store query)
                      (normalizeQuery eng query) 0 store).
           entryIndex d = entryIndex c \<longrightarrow> score d \<le> score c))"
proof -
  let ?q = "normalizeQuery eng query"
  let ?cands = "candidatesFrom eng (lookupExact eng store query) ?q 0 store"
  let ?res = "search eng store query"
  note f = search_facts[where eng = eng and store = store and query = query]
  have kind: "(matchKind c = Exact \<and> score c = 1 \<and>
               lookupExact eng store query = Some (entryIndex c)) \<or>
              (matchKind c = Fuzzy \<and> score c = fuzzyScore eng (entry c) ?q \<and>
               threshold eng < score c)"
    and idx: "entryIndex c < length store \<and> entry c = store ! entryIndex c"
    if "c \<in> set ?cands" for c
    using candidatesFrom_kind[OF that] candidatesFrom_index[OF that] by simp_all
  have S: "sorted_wrt (\<lambda>a b. kindRank (matchKind a) < kindRank (matchKind b) \<or>
                     (kindRank (matchKind a) = kindRank (matchKind b) \<and>
                      (score b < score a \<or>
                       (score a = score b \<and> entryIndex a < entryIndex b)))) ?res"
    by (rule sorted_wrt_mono_rel[OF _ f(1)]) auto
  have K: "\<forall>c\<in>set ?res.
      entryIndex c < length store \<and> entry c = store ! entryIndex c \<and>
      ((matchKind c = Exact \<and> score c = 1 \<and>
        lookupExact eng store query = Some (entryIndex c)) \<or>
       (matchKind c = Fuzzy \<and> score c = fuzzyScore eng (entry c) ?q \<and>
        threshold eng < score c))"
    using f(3) kind idx by blast
  have B: "\<forall>c\<in>set ?res. \<forall>d\<in>set ?cands.
             entryIndex d = entryIndex c \<longrightarrow>
               d = c \<or> kindRank (matchKind c) < kindRank (matchKind d)"
    using f(5) by blast
  have bounded: "sorted_wrt (\<lambda>a b. score b \<le> score a) ?res \<and>
      (\<forall>c\<in>set ?res. \<forall>d\<in>set ?cands. entryIndex d = entryIndex c \<longrightarrow> score d \<le> score c)"
    if le: "\<forall>a b. similarity eng a b \<le> 1"
  proof -
    have le1: "score c \<le> 1" if "c \<in> set ?cands" for c
      using kind[OF that] fuzzyScore_le[OF le, of "entry c" ?q] by auto
    have top: "score d \<le> score c"
      if "c \<in> set ?cands" "d \<in> set ?cands"
         "kindRank (matchKind c) < kindRank (matchKind d)" for c d
    proof -
      from kind[OF that(1)] kind[OF that(2)] that(3) have "score c = 1" by auto
      with le1[OF that(2)] show ?thesis by simp
    qed
    have "sorted_wrt (\<lambda>a b. score b \<le> score a) ?res"
    proof (rule sorted_wrt_mono_rel[OF _ S])
      fix a b assume "a \<in> set ?res" "b \<in> set ?res"
        and "kindRank (matchKind a) < kindRank (matchKind b) \<or>
             (kindRank (matchKind a) = kindRank (matchKind b) \<and>
              (score b < score a \<or> (score a = score b \<and> entryIndex a < entryIndex b)))"
      with f(3) top[of a b] show "score b \<le> score a" by auto
    qed
    moreover have "score d \<le> score c"
      if "c \<in> set ?res" "d \<in> set ?cands" "entryIndex d = entryIndex c" for c d
      using f(5)[OF that] top[of c d] that f(3) by auto
    ultimately show ?thesis by blast
  qed
  from S f(2) f(3) f(4) K B bounded show ?thesis
    by blast
qed

theorem search_sorted_unique_witness:
  "map entryIndex (search exampleEngine rankedStore ''Happy'') = [1, 0, 2] \<and>
   map score (search exampleEngine rankedStore ''Happy'') = [1, 1 / 2, 1 / 2] \<and>
   map matchKind (search exampleEngine rankedStore ''Happy'') = [Exact, Fuzzy, Fuzzy] \<and>
   sorted_wrt (\<lambda>a b. score b \<le> score a) (search exampleEngine rankedStore ''Happy'') \<and>
   distinct (map entryIndex (search exampleEngine rankedStore ''Happy''))"
  using search_sorted_unique[of exampleEngine rankedStore "''Happy''"]
    exampleEngine_similarity_le
  by (simp add: search_ranked)

text \<open>
  The claim as stated, with every tie broken by dataset order, fails where the exact
  candidate ties with a fuzzy candidate of an earlier entry: both have score 1, and the
  exact candidate of the second entry stands before the fuzzy candidate of the first.
\<close>

theorem search_sorted_unique_counterexample:
  "map score (search exampleEngine tieStore ''happy'') = [1, 1] \<and>
   map entryIndex (search exampleEngine tieStore ''happy'') = [1, 0] \<and>
   map matchKind (search exampleEngine tieStore ''happy'') = [Exact, Fuzzy]"
  by (simp add: search_tie)

subsection \<open>Search and replacement never fail\<close>

text \<open>
  C6. \<^verbatim>\<open>search\<close> is a total function into candidate sequences, so it has no error to
  raise. A query that matches nothing (its key resolves to no entry and no entry's fuzzy
  score exceeds the threshold) yields the empty sequence; so does every query on the
  empty store. On the empty store \<^verbatim>\<open>replaceText\<close> returns a result in which every token
  is a failure with the outcome of the configured policy and replaced accordingly.
\<close>

theorem search_never_fails:
  "(lookupExact eng store query = None \<and>
    (\<forall>e\<in>set store. fuzzyScore eng e (normalizeQuery eng query) \<le> threshold eng) \<longrightarrow>
      search eng store query = []) \<and>
   search eng [] query = [] \<and>
   replaceText eng [] txt opts =
     \<lparr> result_text =
         applyReplacements txt 0
           (map (\<lambda>t. (t, if keepOriginalOnNotFound opts then originalText t
                          else if markNotFound opts then ''[?'' @ rawKeyword t @ '']'' else []))
                (scan txt)),
       hasReplacements = (scan txt \<noteq> []),
       successCount = 0,
       failureCount = length (scan txt),
       records =
         map (\<lambda>t. \<lparr>rawKeyword = rawKeyword t,
                    outcome = (if keepOriginalOnNotFound opts then notFoundKept
                               else if markNotFound opts then notFoundMarked
                               else notFoundRemoved),
                    chosenKaomoji = None\<rparr>)
             (scan txt) \<rparr>"
proof (intro conjI impI)
  assume "lookupExact eng store query = None \<and>
    (\<forall>e\<in>set store. fuzzyScore eng e (normalizeQuery eng query) \<le> threshold eng)"
  then show "search eng store query = []"
    by (simp add: search_def lookupExact_def candidatesFrom_unmatched)
next
  show "search eng [] query = []" by (rule search_empty_store)
next
  have p: "processToken eng [] opts t =
           (if keepOriginalOnNotFound opts then originalText t
            else if markNotFound opts then ''[?'' @ rawKeyword t @ '']'' else [],
            \<lparr>rawKeyword = rawKeyword t,
             outcome = (if keepOriginalOnNotFound opts then notFoundKept
                        else if markNotFound opts then notFoundMarked else notFoundRemoved),
             chosenKaomoji = None\<rparr>)" for t
    by (rule processToken_not_found) (rule search_empty_store)
  show "replaceText eng [] txt opts =
     \<lparr> result_text =
         applyReplacements txt 0
           (map (\<lambda>t. (t, if keepOriginalOnNotFound opts then originalText t
                          else if markNotFound opts then ''[?'' @ rawKeyword t @ '']'' else []))
                (scan txt)),
       hasReplacements = (scan txt \<noteq> []),
       successCount = 0,
       failureCount = length (scan txt),
       records =
         map (\<lambda>t. \<lparr>rawKeyword = rawKeyword t,
                    outcome = (if keepOriginalOnNotFound opts then notFoundKept
                               else if markNotFound opts then notFoundMarked
                               else notFoundRemoved),
                    chosenKaomoji = None\<rparr>)
             (scan txt) \<rparr>"
    unfolding replaceText_def Let_def
    by (simp add: p zip_map2 zip_same_conv_map comp_def o_def filter_empty_conv)
qed

theorem search_never_fails_witness:
  "search exampleEngine exampleStore ''sad'' = [] \<and>
   search exampleEngine [] ''happy'' = [] \<and>
   replaceText exampleEngine [] ''a[kaomoji:sad]b''
       \<lparr>keepOriginalOnNotFound = False, markNotFound = True, strategy = ''best''\<rparr> =
     \<lparr> result_text = ''a[?sad]b'', hasReplacements = True, successCount = 0,
       failureCount = 1,
       records = [\<lparr>rawKeyword = ''sad'', outcome = notFoundMarked, chosenKaomoji = None\<rparr>] \<rparr>"
proof -
  have h: "lookupExact exampleEngine exampleStore ''sad'' = None \<and>
           (\<forall>e\<in>set exampleStore.
              fuzzyScore exampleEngine e (normalizeQuery exampleEngine ''sad'') \<le>
              threshold exampleEngine)"
    by (simp add: lookupExact_def exampleStore_def keysOf_def fuzzyScore_def
          normalizeQuery_example similarity_example)
  from search_never_fails[of exampleEngine exampleStore "''sad''" "''a[kaomoji:sad]b''"
         "\<lparr>keepOriginalOnNotFound = False, markNotFound = True, strategy = ''best''\<rparr>"] h
    search_never_fails[of exampleEngine "[]" "''happy''"]
  show ?thesis
    by (simp add: scan_example)
qed

subsection \<open>Search is determined by the store and the query\<close>

text \<open>
  C7. While the Dataset Store is unchanged, that is, over any calls of the replacer
  object other than a bulk load (searches, replacements, changes of the default options),
  \<^verbatim>\<open>search\<close> with the same query returns the same sequence of candidates, and a search
  leaves the replacer as it was.
\<close>

theorem search_deterministic:
  assumes "\<forall>c\<in>set cs. \<not> isLoad c"
  shows "fst (coreStep (Search q) (coreRun cs r)) = fst (coreStep (Search q) r) \<and>
         snd (coreStep (Search q) r) = r \<and>
         fst (coreStep (Search q) (snd (coreStep (Search q) r))) = fst (coreStep (Search q) r)"
  using coreRun_keeps_store[OF assms, of r] by simp

theorem search_deterministic_witness:
  "fst (coreStep (Search ''happy'')
          (coreRun [Search ''sad'',
                    SetConfig \<lparr>keepOriginalOnNotFound = False, markNotFound = True,
                               strategy = ''first''\<rparr>,
                    ReplaceText ''a[kaomoji:sad]b'' None,
                    Search ''happy'']
             exampleReplacer)) =
     fst (coreStep (Search ''happy'') exampleReplacer) \<and>
   snd (coreStep (Search ''happy'') exampleReplacer) = exampleReplacer"
proof -
  have "\<forall>c\<in>set [Search ''sad'',
                    SetConfig \<lparr>keepOriginalOnNotFound = False, markNotFound = True,
                               strategy = ''first''\<rparr>,
                    ReplaceText ''a[kaomoji:sad]b'' None,
                    Search ''happy'']. \<not> isLoad c"
    by simp
  from search_deterministic[OF this, of "''happy''" exampleReplacer]
  show ?thesis by blast
qed

end
